theory Spec2Isabelle
  imports Main "HOL-Library.AList"
begin

section \<open>The JOVIAL J73 semantic parser (jovial\_semantic\_parser.py)\<close>

text \<open>
  A shallow embedding of \<^verbatim>\<open>JovialSemanticModel\<close> and \<^verbatim>\<open>JovialSemanticParser\<close>.

  Source text is a list of characters. The embedding covers ASCII text, the character set of
  JOVIAL sources: characters above 127 are treated as caseless symbols that are neither
  white space nor digits nor letters. Python integers are \<open>int\<close>. A Python \<^verbatim>\<open>dict\<close> is an
  association list in insertion order, written with \<open>AList.update\<close> (an existing key keeps
  its position, a new key goes to the end) and read with \<open>map_of\<close>. The only exception a
  parse can raise is the \<^verbatim>\<open>ValueError\<close> of \<^verbatim>\<open>int()\<close>; it is a value of the result type.
  \<^verbatim>\<open>int()\<close> converts at most \<open>int_max_str_digits\<close> digits, as CPython 3.11 does by default.
  The statements on the entries of tables and on the parameters of procedures name the
  ASCII domain in their hypotheses, as \<open>is_ascii\<close>.
\<close>

subsection \<open>Strings\<close>

definition isspace :: "char \<Rightarrow> bool" where
  \<comment> \<open>\<^verbatim>\<open>str.isspace\<close> and the class \<^verbatim>\<open>\s\<close> on ASCII: TAB, LF, VT, FF, CR, FS, GS, RS, US, SPACE\<close>
  "isspace c = (let n = (of_char c :: nat) in (9 \<le> n \<and> n \<le> 13) \<or> (28 \<le> n \<and> n \<le> 32))"

definition isdigit_char :: "char \<Rightarrow> bool" where
  "isdigit_char c = (let n = (of_char c :: nat) in 48 \<le> n \<and> n \<le> 57)"

definition isupper_char :: "char \<Rightarrow> bool" where
  "isupper_char c = (let n = (of_char c :: nat) in 65 \<le> n \<and> n \<le> 90)"

definition islower_char :: "char \<Rightarrow> bool" where
  "islower_char c = (let n = (of_char c :: nat) in 97 \<le> n \<and> n \<le> 122)"

definition upper_char :: "char \<Rightarrow> char" where
  "upper_char c = (if islower_char c then char_of ((of_char c :: nat) - 32) else c)"

definition upper :: "string \<Rightarrow> string" where
  "upper s = map upper_char s"

definition lstrip :: "string \<Rightarrow> string" where
  "lstrip s = dropWhile isspace s"

definition rstrip :: "string \<Rightarrow> string" where
  "rstrip s = rev (dropWhile isspace (rev s))"

definition strip :: "string \<Rightarrow> string" where
  "strip s = rstrip (lstrip s)"

definition lstrip_chars :: "string \<Rightarrow> string \<Rightarrow> string" where
  \<comment> \<open>\<^verbatim>\<open>s.lstrip(cs)\<close>\<close>
  "lstrip_chars cs s = dropWhile (\<lambda>c. c \<in> set cs) s"

definition rstrip_chars :: "string \<Rightarrow> string \<Rightarrow> string" where
  \<comment> \<open>\<^verbatim>\<open>s.rstrip(cs)\<close>\<close>
  "rstrip_chars cs s = rev (dropWhile (\<lambda>c. c \<in> set cs) (rev s))"

definition startswith :: "string \<Rightarrow> string \<Rightarrow> bool" where
  \<comment> \<open>\<^verbatim>\<open>s.startswith(p)\<close>\<close>
  "startswith p s = (take (length p) s = p)"

definition endswith :: "string \<Rightarrow> string \<Rightarrow> bool" where
  \<comment> \<open>\<^verbatim>\<open>s.endswith(p)\<close>\<close>
  "endswith p s = (length p \<le> length s \<and> drop (length s - length p) s = p)"

fun split_on :: "char \<Rightarrow> string \<Rightarrow> string list" where
  \<comment> \<open>\<^verbatim>\<open>s.split(d)\<close> for a one-character separator: never the empty list\<close>
  "split_on d [] = [[]]"
| "split_on d (c # cs) =
     (if c = d then [] # split_on d cs
      else (let r = split_on d cs in (c # hd r) # tl r))"

fun find_from :: "string \<Rightarrow> string \<Rightarrow> int \<Rightarrow> int" where
  "find_from sub [] i = (if sub = [] then i else - 1)"
| "find_from sub (c # cs) i =
     (if startswith sub (c # cs) then i else find_from sub cs (i + 1))"

definition find_str :: "string \<Rightarrow> string \<Rightarrow> int" where
  \<comment> \<open>\<^verbatim>\<open>s.find(sub)\<close>: the lowest index of \<open>sub\<close> in \<open>s\<close>, or -1\<close>
  "find_str sub s = find_from sub s 0"

definition contains :: "string \<Rightarrow> string \<Rightarrow> bool" where
  \<comment> \<open>\<^verbatim>\<open>sub in s\<close>\<close>
  "contains sub s = (find_str sub s \<noteq> - 1)"

definition isdigit :: "string \<Rightarrow> bool" where
  \<comment> \<open>\<^verbatim>\<open>s.isdigit()\<close>\<close>
  "isdigit s = (s \<noteq> [] \<and> list_all isdigit_char s)"

datatype error = ValueError

definition digits_value :: "string \<Rightarrow> int" where
  "digits_value s = foldl (\<lambda>a c. 10 * a + (int (of_char c) - 48)) 0 s"

fun underscores_ok :: "string \<Rightarrow> bool" where
  \<comment> \<open>digits, with single underscores between digits only\<close>
  "underscores_ok [] = False"
| "underscores_ok [c] = isdigit_char c"
| "underscores_ok (c # d # cs) =
     (isdigit_char c \<and>
      (if d = CHR ''_'' then cs \<noteq> [] \<and> underscores_ok cs else underscores_ok (d # cs)))"

definition int_max_str_digits :: nat where
  \<comment> \<open>\<^verbatim>\<open>sys.get_int_max_str_digits()\<close>: the default of CPython 3.11 and later\<close>
  "int_max_str_digits = 4300"

definition py_int :: "string \<Rightarrow> error + int" where
  \<comment> \<open>\<^verbatim>\<open>int(s)\<close>: white space around, an optional sign, decimal digits; the interpreter
      refuses more than \<open>int_max_str_digits\<close> digits (sign, white space and underscores
      are not counted)\<close>
  "py_int s =
     (let t = strip s;
          neg = (t \<noteq> [] \<and> hd t = CHR ''-'');
          body = (if t \<noteq> [] \<and> (hd t = CHR ''-'' \<or> hd t = CHR ''+'') then tl t else t)
      in if underscores_ok body
            \<and> length (filter (\<lambda>c. c \<noteq> CHR ''_'') body) \<le> int_max_str_digits
         then (let v = digits_value (filter (\<lambda>c. c \<noteq> CHR ''_'') body)
               in Inr (if neg then - v else v))
         else Inl ValueError)"

subsection \<open>Regular expressions\<close>

text \<open>
  The patterns of the parser are data; one backtracking matcher runs them all. The matcher
  returns every way the pattern matches a prefix of the input, in the order in which
  Python's \<^verbatim>\<open>re\<close> tries them (alternatives left to right, repetitions longest first), so the
  head of the list is the match \<^verbatim>\<open>re\<close> reports. A state is the input still to read and the
  groups captured so far; a group that takes no part in the match stays \<open>None\<close>.
\<close>

datatype regex =
    Sym "char \<Rightarrow> bool"
  | Eps
  | Eol
  | Seq regex regex
  | Alt regex regex
  | Star regex
  | Group nat regex

type_synonym groups = "nat \<Rightarrow> string option"
type_synonym mstate = "string \<times> groups"

primrec star_iter :: "(mstate \<Rightarrow> mstate list) \<Rightarrow> nat \<Rightarrow> mstate \<Rightarrow> mstate list" where
  "star_iter f 0 st = [st]"
| "star_iter f (Suc n) st =
     concat (map (star_iter f n)
                 (filter (\<lambda>st'. length (fst st') < length (fst st)) (f st))) @ [st]"

primrec ms :: "regex \<Rightarrow> mstate \<Rightarrow> mstate list" where
  "ms (Sym p) st = (case fst st of [] \<Rightarrow> [] | c # cs \<Rightarrow> if p c then [(cs, snd st)] else [])"
| "ms Eps st = [st]"
| "ms Eol st = (if fst st = [] \<or> fst st = [CHR 0x0A] then [st] else [])"
| "ms (Seq a b) st = concat (map (ms b) (ms a st))"
| "ms (Alt a b) st = ms a st @ ms b st"
| "ms (Star a) st = star_iter (ms a) (length (fst st)) st"
| "ms (Group n a) st =
     map (\<lambda>st'. (fst st', (snd st')(n \<mapsto> take (length (fst st) - length (fst st')) (fst st))))
         (ms a st)"

definition re_plus :: "regex \<Rightarrow> regex" where
  "re_plus r = Seq r (Star r)"

definition re_opt :: "regex \<Rightarrow> regex" where
  "re_opt r = Alt r Eps"

definition re_seqs :: "regex list \<Rightarrow> regex" where
  "re_seqs rs = foldr Seq rs Eps"

definition re_alts :: "regex list \<Rightarrow> regex" where
  "re_alts rs = foldr Alt (butlast rs) (last rs)"

definition re_lit :: "string \<Rightarrow> regex" where
  \<comment> \<open>a literal under \<^verbatim>\<open>re.IGNORECASE\<close>\<close>
  "re_lit s = re_seqs (map (\<lambda>c. Sym (\<lambda>x. upper_char x = upper_char c)) s)"

definition re_chr :: "char \<Rightarrow> regex" where
  "re_chr c = Sym (\<lambda>x. x = c)"

definition re_space :: regex where
  "re_space = Sym isspace"

definition re_digit :: regex where
  "re_digit = Sym isdigit_char"

definition re_dot :: regex where
  \<comment> \<open>\<^verbatim>\<open>.\<close> without \<^verbatim>\<open>re.DOTALL\<close>\<close>
  "re_dot = Sym (\<lambda>x. x \<noteq> CHR 0x0A)"

definition isalpha_char :: "char \<Rightarrow> bool" where
  "isalpha_char c = (isupper_char c \<or> islower_char c)"

definition isname_char :: "char \<Rightarrow> bool" where
  "isname_char c = (isalpha_char c \<or> isdigit_char c \<or> c = CHR 0x27)"

definition re_name :: regex where
  \<comment> \<open>\<^verbatim>\<open>[A-Z][A-Z0-9']*\<close> under \<^verbatim>\<open>re.IGNORECASE\<close>\<close>
  "re_name = Seq (Sym isalpha_char) (Star (Sym isname_char))"

definition re_match :: "regex \<Rightarrow> string \<Rightarrow> groups option" where
  \<comment> \<open>\<^verbatim>\<open>re.match(r, s)\<close>: the groups of the first match at the start of \<open>s\<close>\<close>
  "re_match r s = (case ms r (s, Map.empty) of [] \<Rightarrow> None | st # _ \<Rightarrow> Some (snd st))"

fun re_search_from :: "regex \<Rightarrow> string \<Rightarrow> mstate option" where
  "re_search_from r [] = (case ms r ([], Map.empty) of [] \<Rightarrow> None | st # _ \<Rightarrow> Some st)"
| "re_search_from r (c # cs) =
     (case ms r (c # cs, Map.empty) of [] \<Rightarrow> re_search_from r cs | st # _ \<Rightarrow> Some st)"

definition re_search :: "regex \<Rightarrow> string \<Rightarrow> groups option" where
  \<comment> \<open>\<^verbatim>\<open>re.search(r, s)\<close>: the first match at the leftmost position that has one\<close>
  "re_search r s = map_option snd (re_search_from r s)"

fun re_findall1 :: "regex \<Rightarrow> string \<Rightarrow> string list" where
  \<comment> \<open>\<^verbatim>\<open>r.findall(s)\<close> for a pattern with one group: group 1 of the successive matches\<close>
  "re_findall1 r s =
     (case re_search_from r s of
        None \<Rightarrow> []
      | Some st \<Rightarrow>
          [case snd st 1 of None \<Rightarrow> [] | Some g \<Rightarrow> g] @
          (if length (fst st) < length s then re_findall1 r (fst st)
           else (case s of [] \<Rightarrow> [] | _ # t \<Rightarrow> re_findall1 r t)))"

subsection \<open>The data model\<close>

datatype JovialType =
  SIGNED | UNSIGNED | FLOAT | FIXED | BIT | CHARACTER | STATUS | POINTER | TABLE | ENTRY | UNKNOWN

text \<open>
  Fields that several classes share (\<^verbatim>\<open>name\<close>, \<^verbatim>\<open>is_constant\<close>, \<^verbatim>\<open>line_number\<close>, ...) carry
  the class as a prefix; the others keep the name they have in the source.
\<close>

record ItemDefinition =
  item_name :: string
  item_type :: JovialType
  item_size :: "int option"
  item_scale :: "int option"
  status_values :: "string list"
  item_is_constant :: bool
  item_is_static :: bool
  item_is_parallel :: bool
  initial_value :: "string option"
  position :: "(int \<times> int) option"
  item_line_number :: int
  column_start :: int
  column_end :: int
  parent_table :: "string option"

record TableDefinition =
  table_name :: string
  dimensions :: "(int \<times> int) list"
  entries :: "(string \<times> ItemDefinition) list"
  table_is_constant :: bool
  table_is_static :: bool
  table_is_parallel :: bool
  wordsize :: "int option"
  table_line_start :: int
  table_line_end :: int

record ProcDefinition =
  proc_name :: string
  parameters :: "(string \<times> string) list"
  return_type :: "JovialType option"
  is_recursive :: bool
  is_reentrant :: bool
  local_items :: "(string \<times> ItemDefinition) list"
  local_tables :: "(string \<times> TableDefinition) list"
  proc_line_start :: int
  proc_line_end :: int
  body_start :: int

record CompoolReference =
  compool_name :: string
  compool_items :: "string list"
  compool_tables :: "string list"
  compool_procs :: "string list"
  compool_line_number :: int

record DefineConstant =
  define_name :: string
  define_value :: string
  define_line_number :: int

record TypeDeclaration =
  \<comment> \<open>the dictionary \<^verbatim>\<open>{'name': ..., 'description': ..., 'line': ...}\<close> stored in \<^verbatim>\<open>model.types\<close>\<close>
  type_name :: string
  type_description :: string
  type_line :: int

record JovialSemanticModel =
  items :: "(string \<times> ItemDefinition) list"
  tables :: "(string \<times> TableDefinition) list"
  procs :: "(string \<times> ProcDefinition) list"
  compools :: "(string \<times> CompoolReference) list"
  model_defines :: "(string \<times> DefineConstant) list"
  types :: "(string \<times> TypeDeclaration) list"
  current_scope :: string
  scope_stack :: "string list"
  program_name :: "string option"
  module_type :: "string option"

definition new_item :: "string \<Rightarrow> JovialType \<Rightarrow> ItemDefinition" where
  \<comment> \<open>\<^verbatim>\<open>ItemDefinition(name=..., type=...)\<close> with the defaults of the dataclass\<close>
  "new_item n t =
     \<lparr> item_name = n, item_type = t, item_size = None, item_scale = None, status_values = [],
       item_is_constant = False, item_is_static = False, item_is_parallel = False,
       initial_value = None, position = None, item_line_number = 0, column_start = 0,
       column_end = 0, parent_table = None \<rparr>"

definition new_table :: "string \<Rightarrow> TableDefinition" where
  "new_table n =
     \<lparr> table_name = n, dimensions = [], entries = [], table_is_constant = False,
       table_is_static = False, table_is_parallel = False, wordsize = None,
       table_line_start = 0, table_line_end = 0 \<rparr>"

definition new_proc :: "string \<Rightarrow> ProcDefinition" where
  "new_proc n =
     \<lparr> proc_name = n, parameters = [], return_type = None, is_recursive = False,
       is_reentrant = False, local_items = [], local_tables = [], proc_line_start = 0,
       proc_line_end = 0, body_start = 0 \<rparr>"

definition new_model :: JovialSemanticModel where
  \<comment> \<open>\<^verbatim>\<open>JovialSemanticModel.__init__\<close>\<close>
  "new_model =
     \<lparr> items = [], tables = [], procs = [], compools = [], model_defines = [], types = [],
       current_scope = ''GLOBAL'', scope_stack = [], program_name = None, module_type = None \<rparr>"

definition add_item :: "JovialSemanticModel \<Rightarrow> ItemDefinition \<Rightarrow> JovialSemanticModel" where
  "add_item m item =
     (let key = (if current_scope m \<noteq> ''GLOBAL''
                 then current_scope m @ ''.'' @ item_name item else item_name item)
      in m\<lparr>items := AList.update key item (AList.update (item_name item) item (items m))\<rparr>)"

definition get_item :: "JovialSemanticModel \<Rightarrow> string \<Rightarrow> ItemDefinition option" where
  "get_item m n =
     (let scoped_name = current_scope m @ ''.'' @ n
      in case map_of (items m) scoped_name of
           Some i \<Rightarrow> Some i
         | None \<Rightarrow> map_of (items m) n)"

definition add_table :: "JovialSemanticModel \<Rightarrow> TableDefinition \<Rightarrow> JovialSemanticModel" where
  "add_table m t = m\<lparr>tables := AList.update (table_name t) t (tables m)\<rparr>"

definition get_table :: "JovialSemanticModel \<Rightarrow> string \<Rightarrow> TableDefinition option" where
  "get_table m n = map_of (tables m) n"

definition add_proc :: "JovialSemanticModel \<Rightarrow> ProcDefinition \<Rightarrow> JovialSemanticModel" where
  "add_proc m pr = m\<lparr>procs := AList.update (proc_name pr) pr (procs m)\<rparr>"

definition get_proc :: "JovialSemanticModel \<Rightarrow> string \<Rightarrow> ProcDefinition option" where
  "get_proc m n = map_of (procs m) n"

definition get_all_symbols :: "JovialSemanticModel \<Rightarrow> string list" where
  \<comment> \<open>\<^verbatim>\<open>list(set(symbols))\<close>: Python leaves the order of the result open; the model fixes
      one, and the theorems speak of the elements only\<close>
  "get_all_symbols m =
     (let symbols = [] @ map fst (items m) @ map fst (tables m) @ map fst (procs m)
                       @ map fst (model_defines m)
      in remdups symbols)"

subsection \<open>The patterns of the parser\<close>

definition start_pattern :: regex where
  \<comment> \<open>\<^verbatim>\<open>START\s+([A-Z][A-Z0-9\']*)?\<close>\<close>
  "start_pattern = re_seqs [re_lit ''START'', re_plus re_space, re_opt (Group 1 re_name)]"

definition compool_pattern :: regex where
  \<comment> \<open>\<^verbatim>\<open>COMPOOL\s+([A-Z][A-Z0-9\']*)\<close>\<close>
  "compool_pattern = re_seqs [re_lit ''COMPOOL'', re_plus re_space, Group 1 re_name]"

definition item_pattern :: regex where
  \<comment> \<open>\<^verbatim>\<open>ITEM\s+([A-Z][A-Z0-9\']*)\s+(STATIC\s+|CONSTANT\s+|PARALLEL\s+)*(S|U|F|A|B|C|P|STATUS)\s*(\d+)?(.*)\<close>\<close>
  "item_pattern =
     re_seqs [re_lit ''ITEM'', re_plus re_space, Group 1 re_name, re_plus re_space,
              Star (Group 2 (re_alts [Seq (re_lit ''STATIC'') (re_plus re_space),
                                      Seq (re_lit ''CONSTANT'') (re_plus re_space),
                                      Seq (re_lit ''PARALLEL'') (re_plus re_space)])),
              Group 3 (re_alts [re_lit ''S'', re_lit ''U'', re_lit ''F'', re_lit ''A'',
                                re_lit ''B'', re_lit ''C'', re_lit ''P'', re_lit ''STATUS'']),
              Star re_space, re_opt (Group 4 (re_plus re_digit)), Group 5 (Star re_dot)]"

definition table_pattern :: regex where
  \<comment> \<open>\<^verbatim>\<open>TABLE\s+([A-Z][A-Z0-9\']*)\s*\(([^)]+)\)\s*(.*)\<close>\<close>
  "table_pattern =
     re_seqs [re_lit ''TABLE'', re_plus re_space, Group 1 re_name, Star re_space,
              re_chr CHR ''('', Group 2 (re_plus (Sym (\<lambda>x. x \<noteq> CHR '')''))), re_chr CHR '')'',
              Star re_space, Group 3 (Star re_dot)]"

definition proc_pattern :: regex where
  \<comment> \<open>\<^verbatim>\<open>PROC\s+([A-Z][A-Z0-9\']*)\s*(?:\(([^)]*)\))?\s*(.*)\<close>\<close>
  "proc_pattern =
     re_seqs [re_lit ''PROC'', re_plus re_space, Group 1 re_name, Star re_space,
              re_opt (re_seqs [re_chr CHR ''('', Group 2 (Star (Sym (\<lambda>x. x \<noteq> CHR '')''))),
                               re_chr CHR '')'']),
              Star re_space, Group 3 (Star re_dot)]"

definition type_pattern :: regex where
  \<comment> \<open>\<^verbatim>\<open>TYPE\s+([A-Z][A-Z0-9\']*)\s+(.+)\<close>\<close>
  "type_pattern =
     re_seqs [re_lit ''TYPE'', re_plus re_space, Group 1 re_name, re_plus re_space,
              Group 2 (re_plus re_dot)]"

definition define_pattern :: regex where
  \<comment> \<open>\<^verbatim>\<open>DEFINE\s+([A-Z][A-Z0-9\']*)\s*=?\s*(.+)\<close>\<close>
  "define_pattern =
     re_seqs [re_lit ''DEFINE'', re_plus re_space, Group 1 re_name, Star re_space,
              re_opt (re_chr CHR ''=''), Star re_space, Group 2 (re_plus re_dot)]"

definition kind_pattern :: regex where
  \<comment> \<open>\<^verbatim>\<open>(ITEM|TABLE|PROC)?\<close>\<close>
  "kind_pattern = re_opt (Group 1 (re_alts [re_lit ''ITEM'', re_lit ''TABLE'', re_lit ''PROC'']))"

definition def_pattern :: regex where
  \<comment> \<open>\<^verbatim>\<open>DEF\s+(ITEM|TABLE|PROC)?\s*([A-Z][A-Z0-9\']*)\<close>\<close>
  "def_pattern =
     re_seqs [re_lit ''DEF'', re_plus re_space, kind_pattern, Star re_space, Group 2 re_name]"

definition ref_pattern :: regex where
  \<comment> \<open>\<^verbatim>\<open>REF\s+(ITEM|TABLE|PROC)?\s*([A-Z][A-Z0-9\']*)\<close>\<close>
  "ref_pattern =
     re_seqs [re_lit ''REF'', re_plus re_space, kind_pattern, Star re_space, Group 2 re_name]"

definition STATUS_VALUE_PATTERN :: regex where
  \<comment> \<open>\<^verbatim>\<open>V\s*\(\s*([A-Z][A-Z0-9']*)\s*\)\<close>\<close>
  "STATUS_VALUE_PATTERN =
     re_seqs [re_lit ''V'', Star re_space, re_chr CHR ''('', Star re_space, Group 1 re_name,
              Star re_space, re_chr CHR '')'']"

definition value_pattern :: regex where
  \<comment> \<open>\<^verbatim>\<open>=\s*(.+)$\<close>\<close>
  "value_pattern = re_seqs [re_chr CHR ''='', Star re_space, Group 1 (re_plus re_dot), Eol]"

definition wordsize_pattern :: regex where
  \<comment> \<open>\<^verbatim>\<open>W\s+(\d+)\<close>\<close>
  "wordsize_pattern = re_seqs [re_lit ''W'', re_plus re_space, Group 1 (re_plus re_digit)]"

subsection \<open>The parser\<close>

record JovialSemanticParser =
  model :: JovialSemanticModel
  lines :: "string list"
  current_line_num :: int
  in_table_body :: bool
  current_table :: "string option"
  in_proc_body :: bool
  current_proc :: "string option"
  in_compool :: bool

definition truthy :: "string option \<Rightarrow> bool" where
  \<comment> \<open>the truth value Python gives an \<^verbatim>\<open>Optional[str]\<close>\<close>
  "truthy x = (case x of None \<Rightarrow> False | Some s \<Rightarrow> s \<noteq> [])"

definition or_empty :: "string option \<Rightarrow> string" where
  \<comment> \<open>\<^verbatim>\<open>x or ""\<close>\<close>
  "or_empty x = (case x of None \<Rightarrow> [] | Some s \<Rightarrow> s)"

fun remove_comments_from :: "string \<Rightarrow> bool \<Rightarrow> string" where
  \<comment> \<open>the loop of \<^verbatim>\<open>_remove_comments\<close>; the flag is \<^verbatim>\<open>in_string\<close>, and the loop ends where
      \<^verbatim>\<open>in_comment\<close> is set\<close>
  "remove_comments_from [] in_string = []"
| "remove_comments_from (c # cs) in_string =
     (if c = CHR 0x22 \<and> \<not> in_string then []
      else if c = CHR 0x27 then c # remove_comments_from cs (\<not> in_string)
      else c # remove_comments_from cs in_string)"

definition remove_comments :: "string \<Rightarrow> string" where
  "remove_comments line = remove_comments_from line False"

definition parse_start :: "JovialSemanticParser \<Rightarrow> string \<Rightarrow> int \<Rightarrow> JovialSemanticParser" where
  "parse_start p statement line_num =
     (let m = model p;
          m1 = (case re_match start_pattern statement of
                  None \<Rightarrow> m
                | Some g \<Rightarrow> if truthy (g 1) then m\<lparr>program_name := g 1\<rparr> else m)
      in p\<lparr>model := m1\<lparr>module_type := Some ''MAIN''\<rparr>\<rparr>)"

definition parse_compool_start ::
  "JovialSemanticParser \<Rightarrow> string \<Rightarrow> int \<Rightarrow> JovialSemanticParser" where
  "parse_compool_start p statement line_num =
     (let m = model p;
          m1 = (case re_match compool_pattern statement of
                  None \<Rightarrow> m
                | Some g \<Rightarrow> m\<lparr>program_name := g 1, module_type := Some ''COMPOOL''\<rparr>)
      in p\<lparr>model := m1, in_compool := True\<rparr>)"

definition type_map :: "(string \<times> JovialType) list" where
  "type_map =
     [(''S'', SIGNED), (''U'', UNSIGNED), (''F'', FLOAT), (''A'', FIXED), (''B'', BIT),
      (''C'', CHARACTER), (''P'', POINTER), (''STATUS'', STATUS)]"

definition item_of_match ::
  "JovialSemanticParser \<Rightarrow> string \<Rightarrow> int \<Rightarrow> groups \<Rightarrow> int option \<Rightarrow> ItemDefinition" where
  \<comment> \<open>the \<^verbatim>\<open>ItemDefinition\<close> that \<^verbatim>\<open>_parse_item_declaration\<close> builds from the groups of its
      match; \<open>sz\<close> is the size already converted\<close>
  "item_of_match p statement line_num g sz =
     (let name = the (g 1);
          attrs = or_empty (g 2);
          type_abbrev = upper (the (g 3));
          rest = or_empty (g 5);
          itype = (case map_of type_map type_abbrev of None \<Rightarrow> UNKNOWN | Some t \<Rightarrow> t);
          svalues = (if itype = STATUS
                     then re_findall1 STATUS_VALUE_PATTERN statement else []);
          ivalue = (case re_search value_pattern rest of
                      None \<Rightarrow> None | Some v \<Rightarrow> Some (strip (the (v 1))))
      in \<lparr> item_name = name, item_type = itype, item_size = sz,
           item_scale = None, status_values = svalues,
           item_is_constant = contains ''CONSTANT'' (upper attrs),
           item_is_static = contains ''STATIC'' (upper attrs),
           item_is_parallel = contains ''PARALLEL'' (upper attrs),
           initial_value = ivalue, position = None,
           item_line_number = line_num,
           column_start = find_str name (upper statement),
           column_end = find_str name (upper statement) + int (length name),
           parent_table = current_table p \<rparr>)"

definition place_item ::
  "JovialSemanticParser \<Rightarrow> string \<Rightarrow> ItemDefinition \<Rightarrow> JovialSemanticModel" where
  \<comment> \<open>the end of \<^verbatim>\<open>_parse_item_declaration\<close>: the item goes into the entries of the current
      table or into the local items of the current procedure, and then into the model\<close>
  "place_item p name item =
     (let m = model p;
          m1 = (if truthy (current_table p) \<and> in_table_body p then
                  (case get_table m (the (current_table p)) of
                     None \<Rightarrow> m
                   | Some table \<Rightarrow>
                       m\<lparr>tables := AList.update (the (current_table p))
                            (table\<lparr>entries := AList.update name item (entries table)\<rparr>)
                            (tables m)\<rparr>)
                else if truthy (current_proc p) \<and> in_proc_body p then
                  (case get_proc m (the (current_proc p)) of
                     None \<Rightarrow> m
                   | Some proc \<Rightarrow>
                       m\<lparr>procs := AList.update (the (current_proc p))
                            (proc\<lparr>local_items := AList.update name item (local_items proc)\<rparr>)
                            (procs m)\<rparr>)
                else m)
      in add_item m1 item)"

definition parse_item_declaration ::
  "JovialSemanticParser \<Rightarrow> string \<Rightarrow> int \<Rightarrow> error + JovialSemanticParser" where
  "parse_item_declaration p statement line_num =
     (let stmt = strip (rstrip_chars '';'' statement) in
      case re_match item_pattern stmt of
        None \<Rightarrow> Inr p
      | Some g \<Rightarrow>
          (case (if truthy (g 4) then map_sum id Some (py_int (the (g 4))) else Inr None) of
             Inl e \<Rightarrow> Inl e
           | Inr sz \<Rightarrow>
               (let item = item_of_match p statement line_num g sz
                in Inr (p\<lparr>model := place_item p (the (g 1)) item\<rparr>))))"

definition guarded_int :: "bool \<Rightarrow> string \<Rightarrow> error + int" where
  \<comment> \<open>\<^verbatim>\<open>int(s) if guard else 0\<close>\<close>
  "guarded_int guard s = (if guard then py_int s else Inr 0)"

definition parse_dim :: "string \<Rightarrow> error + (int \<times> int)" where
  \<comment> \<open>the body of the loop over \<^verbatim>\<open>dim_parts\<close> in \<^verbatim>\<open>_parse_table_declaration\<close>\<close>
  "parse_dim dim0 =
     (let dim = strip dim0 in
      if CHR '':'' \<in> set dim then
        (let parts = split_on CHR '':'' dim in
         case guarded_int (isdigit (lstrip_chars ''-'' (strip (parts ! 0)))) (strip (parts ! 0)) of
           Inl e \<Rightarrow> Inl e
         | Inr lower_bound \<Rightarrow>
             (case guarded_int (isdigit (lstrip_chars ''-'' (strip (parts ! 1))))
                     (strip (parts ! 1)) of
                Inl e \<Rightarrow> Inl e
              | Inr upper_bound \<Rightarrow> Inr (lower_bound, upper_bound)))
      else
        (case guarded_int (isdigit dim) dim of
           Inl e \<Rightarrow> Inl e
         | Inr upper_bound \<Rightarrow> Inr (1, upper_bound)))"

fun parse_dims :: "string list \<Rightarrow> error + (int \<times> int) list" where
  "parse_dims [] = Inr []"
| "parse_dims (d # ds) =
     (case parse_dim d of
        Inl e \<Rightarrow> Inl e
      | Inr b \<Rightarrow> (case parse_dims ds of Inl e \<Rightarrow> Inl e | Inr bs \<Rightarrow> Inr (b # bs)))"

definition parse_table_declaration ::
  "JovialSemanticParser \<Rightarrow> string \<Rightarrow> int \<Rightarrow> error + JovialSemanticParser" where
  "parse_table_declaration p statement line_num =
     (let stmt = strip (rstrip_chars '';'' statement) in
      case re_match table_pattern stmt of
        None \<Rightarrow> Inr p
      | Some g \<Rightarrow>
          (let name = the (g 1);
               dims_str = the (g 2);
               attrs = or_empty (g 3)
           in case parse_dims (split_on CHR '','' dims_str) of
                Inl e \<Rightarrow> Inl e
              | Inr dims \<Rightarrow>
                  (case (case re_search wordsize_pattern attrs of
                           None \<Rightarrow> Inr None
                         | Some w \<Rightarrow> map_sum id Some (py_int (the (w 1)))) of
                     Inl e \<Rightarrow> Inl e
                   | Inr ws \<Rightarrow>
                       (let table = \<lparr> table_name = name, dimensions = dims, entries = [],
                                       table_is_constant = contains ''CONSTANT'' (upper attrs),
                                       table_is_static = contains ''STATIC'' (upper attrs),
                                       table_is_parallel = contains ''PARALLEL'' (upper attrs),
                                       wordsize = ws, table_line_start = line_num,
                                       table_line_end = 0 \<rparr>
                        in Inr (p\<lparr>model := add_table (model p) table,
                                   current_table := Some name\<rparr>)))))"

definition stripped_names :: "string \<Rightarrow> string list" where
  \<comment> \<open>\<^verbatim>\<open>[p.strip() for p in s.split(',') if p.strip()]\<close>\<close>
  "stripped_names s = filter (\<lambda>q. q \<noteq> []) (map strip (split_on CHR '','' s))"

definition proc_parameters :: "string \<Rightarrow> (string \<times> string) list" where
  \<comment> \<open>the parameter list that \<^verbatim>\<open>_parse_proc_declaration\<close> builds from \<^verbatim>\<open>params_str\<close>\<close>
  "proc_parameters params_str =
     (if params_str \<noteq> [] then
        (if CHR '':'' \<in> set params_str then
           (let in_out = split_on CHR '':'' params_str;
                inputs = stripped_names (in_out ! 0);
                outputs = (if length in_out > 1 then stripped_names (in_out ! 1) else [])
            in map (\<lambda>q. (q, ''IN'')) inputs @ map (\<lambda>q. (q, ''OUT'')) outputs)
         else map (\<lambda>q. (q, ''INOUT'')) (stripped_names params_str))
      else [])"

definition parse_proc_declaration ::
  "JovialSemanticParser \<Rightarrow> string \<Rightarrow> int \<Rightarrow> JovialSemanticParser" where
  "parse_proc_declaration p statement line_num =
     (let stmt = strip (rstrip_chars '';'' statement) in
      case re_match proc_pattern stmt of
        None \<Rightarrow> p
      | Some g \<Rightarrow>
          (let name = the (g 1);
               params_str = or_empty (g 2);
               proc = (new_proc name)\<lparr>parameters := proc_parameters params_str,
                                       proc_line_start := line_num\<rparr>
           in p\<lparr>model := add_proc (model p) proc, current_proc := Some name\<rparr>))"

definition parse_type_declaration ::
  "JovialSemanticParser \<Rightarrow> string \<Rightarrow> int \<Rightarrow> JovialSemanticParser" where
  "parse_type_declaration p statement line_num =
     (let stmt = strip (rstrip_chars '';'' statement) in
      case re_match type_pattern stmt of
        None \<Rightarrow> p
      | Some g \<Rightarrow>
          (let name = the (g 1);
               type_desc = the (g 2);
               m = model p
           in p\<lparr>model := m\<lparr>types := AList.update name
                    \<lparr>type_name = name, type_description = type_desc, type_line = line_num\<rparr>
                    (types m)\<rparr>\<rparr>))"

definition parse_define :: "JovialSemanticParser \<Rightarrow> string \<Rightarrow> int \<Rightarrow> JovialSemanticParser" where
  "parse_define p statement line_num =
     (let stmt = strip (rstrip_chars '';'' statement) in
      case re_match define_pattern stmt of
        None \<Rightarrow> p
      | Some g \<Rightarrow>
          (let name = the (g 1);
               val = the (g 2);
               m = model p
           in p\<lparr>model := m\<lparr>model_defines := AList.update name
                    \<lparr>define_name = name, define_value = val, define_line_number = line_num\<rparr>
                    (model_defines m)\<rparr>\<rparr>))"

definition parse_def_reference ::
  "JovialSemanticParser \<Rightarrow> string \<Rightarrow> int \<Rightarrow> JovialSemanticParser" where
  "parse_def_reference p statement line_num =
     (let stmt = strip (rstrip_chars '';'' statement) in
      case re_match def_pattern stmt of
        None \<Rightarrow> p
      | Some g \<Rightarrow>
          (let kind = (if truthy (g 1) then Some (upper (the (g 1))) else None);
               name = the (g 2)
           in if kind = Some ''ITEM'' \<or> kind = None then
                p\<lparr>model := add_item (model p)
                               ((new_item name UNKNOWN)\<lparr>item_line_number := line_num\<rparr>)\<rparr>
              else p))"

definition parse_ref_reference ::
  "JovialSemanticParser \<Rightarrow> string \<Rightarrow> int \<Rightarrow> JovialSemanticParser" where
  "parse_ref_reference p statement line_num =
     (let stmt = strip (rstrip_chars '';'' statement) in
      case re_match ref_pattern stmt of
        None \<Rightarrow> p
      | Some g \<Rightarrow>
          (let kind = (if truthy (g 1) then upper (the (g 1)) else ''PROC'');
               name = the (g 2)
           in if kind = ''PROC'' then
                p\<lparr>model := add_proc (model p) ((new_proc name)\<lparr>proc_line_start := line_num\<rparr>)\<rparr>
              else p))"

definition handle_begin :: "JovialSemanticParser \<Rightarrow> int \<Rightarrow> JovialSemanticParser" where
  "handle_begin p line_num =
     (let p1 = (if truthy (current_table p) then p\<lparr>in_table_body := True\<rparr> else p) in
      if truthy (current_proc p1) then
        (let p2 = p1\<lparr>in_proc_body := True\<rparr>; m = model p2 in
         case get_proc m (the (current_proc p2)) of
           None \<Rightarrow> p2
         | Some proc \<Rightarrow>
             p2\<lparr>model := m\<lparr>procs := AList.update (the (current_proc p2))
                                      (proc\<lparr>body_start := line_num\<rparr>) (procs m)\<rparr>\<rparr>)
      else p1)"

definition handle_end :: "JovialSemanticParser \<Rightarrow> int \<Rightarrow> JovialSemanticParser" where
  "handle_end p line_num =
     (if in_table_body p then
        (let p1 = p\<lparr>in_table_body := False\<rparr>; m = model p1;
             p2 = (if truthy (current_table p1) then
                     (case get_table m (the (current_table p1)) of
                        None \<Rightarrow> p1
                      | Some table \<Rightarrow>
                          p1\<lparr>model := m\<lparr>tables := AList.update (the (current_table p1))
                                            (table\<lparr>table_line_end := line_num\<rparr>) (tables m)\<rparr>\<rparr>)
                   else p1)
         in p2\<lparr>current_table := None\<rparr>)
      else if in_proc_body p then
        (let p1 = p\<lparr>in_proc_body := False\<rparr>; m = model p1;
             p2 = (if truthy (current_proc p1) then
                     (case get_proc m (the (current_proc p1)) of
                        None \<Rightarrow> p1
                      | Some proc \<Rightarrow>
                          p1\<lparr>model := m\<lparr>procs := AList.update (the (current_proc p1))
                                            (proc\<lparr>proc_line_end := line_num\<rparr>) (procs m)\<rparr>\<rparr>)
                   else p1)
         in p2\<lparr>current_proc := None\<rparr>)
      else p)"

definition parse_statement ::
  "JovialSemanticParser \<Rightarrow> string \<Rightarrow> int \<Rightarrow> error + JovialSemanticParser" where
  "parse_statement p statement line_num =
     (let u = upper statement in
      if startswith ''START'' u then Inr (parse_start p statement line_num)
      else if startswith ''TERM'' u then Inr p
      else if startswith ''COMPOOL'' u then Inr (parse_compool_start p statement line_num)
      else if u = ''BEGIN'' then Inr (handle_begin p line_num)
      else if u = ''END'' then Inr (handle_end p line_num)
      else if startswith ''ITEM'' u then parse_item_declaration p statement line_num
      else if startswith ''TABLE'' u then parse_table_declaration p statement line_num
      else if startswith ''PROC'' u then Inr (parse_proc_declaration p statement line_num)
      else if startswith ''TYPE'' u then Inr (parse_type_declaration p statement line_num)
      else if startswith ''DEFINE'' u then Inr (parse_define p statement line_num)
      else if startswith ''DEF'' u \<and> \<not> startswith ''DEFINE'' u
        then Inr (parse_def_reference p statement line_num)
      else if startswith ''REF'' u then Inr (parse_ref_reference p statement line_num)
      else Inr p)"

definition is_complete :: "string \<Rightarrow> bool" where
  \<comment> \<open>the test that ends a statement, on the stripped line\<close>
  "is_complete stripped =
     (endswith '';'' stripped \<or> upper stripped \<in> set [''BEGIN'', ''END'', ''START'', ''TERM''])"

fun parse_lines ::
  "JovialSemanticParser \<Rightarrow> string \<Rightarrow> int \<Rightarrow> string list \<Rightarrow> error + (JovialSemanticParser \<times> string)"
where
  \<comment> \<open>the loop of \<^verbatim>\<open>parse\<close> over \<^verbatim>\<open>enumerate(self.lines)\<close>, with \<^verbatim>\<open>statement_buffer\<close>\<close>
  "parse_lines p statement_buffer i [] = Inr (p, statement_buffer)"
| "parse_lines p statement_buffer i (line # rest) =
     (let p1 = p\<lparr>current_line_num := i\<rparr>;
          stripped = strip (remove_comments line)
      in if stripped = [] then parse_lines p1 statement_buffer (i + 1) rest
         else
           (let buf = statement_buffer @ '' '' @ stripped in
            if is_complete stripped then
              (case parse_statement p1 (strip buf) i of
                 Inl e \<Rightarrow> Inl e
               | Inr p2 \<Rightarrow> parse_lines p2 [] (i + 1) rest)
            else parse_lines p1 buf (i + 1) rest))"

definition new_parser :: JovialSemanticParser where
  \<comment> \<open>\<^verbatim>\<open>JovialSemanticParser.__init__\<close>\<close>
  "new_parser =
     \<lparr> model = new_model, lines = [], current_line_num = 0, in_table_body = False,
       current_table = None, in_proc_body = False, current_proc = None, in_compool = False \<rparr>"

definition begin_parse :: "JovialSemanticParser \<Rightarrow> string \<Rightarrow> JovialSemanticParser" where
  \<comment> \<open>the assignments at the head of \<^verbatim>\<open>parse\<close>: a fresh model, the lines, the state reset\<close>
  "begin_parse self jovial_code =
     self\<lparr>model := new_model, lines := split_on CHR 0x0A jovial_code,
          current_line_num := 0, in_table_body := False, current_table := None,
          in_proc_body := False, current_proc := None, in_compool := False\<rparr>"

definition parse ::
  "JovialSemanticParser \<Rightarrow> string \<Rightarrow> error + (JovialSemanticParser \<times> JovialSemanticModel)" where
  \<comment> \<open>the parser object after the call, and the model the call returns\<close>
  "parse self jovial_code =
     (let p0 = begin_parse self jovial_code
      in case parse_lines p0 [] 0 (lines p0) of
           Inl e \<Rightarrow> Inl e
         | Inr (p1, buf) \<Rightarrow> Inr (p1, model p1))"

subsection \<open>Notions used in the statements\<close>

primrec groups_of :: "regex \<Rightarrow> nat set" where
  \<comment> \<open>the group numbers that occur in a pattern\<close>
  "groups_of (Sym p) = {}"
| "groups_of Eps = {}"
| "groups_of Eol = {}"
| "groups_of (Seq a b) = groups_of a \<union> groups_of b"
| "groups_of (Alt a b) = groups_of a \<union> groups_of b"
| "groups_of (Star a) = groups_of a"
| "groups_of (Group n a) = insert n (groups_of a)"

definition is_name :: "string \<Rightarrow> bool" where
  \<comment> \<open>the strings of \<^verbatim>\<open>[A-Z][A-Z0-9']*\<close> under \<^verbatim>\<open>re.IGNORECASE\<close>\<close>
  "is_name w = (w \<noteq> [] \<and> isalpha_char (hd w) \<and> list_all isname_char (tl w))"

definition is_digits :: "string \<Rightarrow> bool" where
  \<comment> \<open>the strings of \<^verbatim>\<open>\d+\<close>\<close>
  "is_digits w = (w \<noteq> [] \<and> list_all isdigit_char w)"

definition accumulate :: "string \<Rightarrow> string list \<Rightarrow> string" where
  \<comment> \<open>\<^verbatim>\<open>statement_buffer\<close> after the lines \<open>ls\<close> were added to \<open>buf\<close>, none of them dispatched\<close>
  "accumulate buf ls =
     foldl (\<lambda>b l. if strip (remove_comments l) = [] then b
                    else b @ '' '' @ strip (remove_comments l)) buf ls"

definition scope_global :: "JovialSemanticModel \<Rightarrow> bool" where
  \<comment> \<open>the scope is \<^verbatim>\<open>"GLOBAL"\<close> and every key of \<^verbatim>\<open>items\<close> is a declared name\<close>
  "scope_global m = (current_scope m = ''GLOBAL'' \<and> list_all is_name (map fst (items m)))"





definition first_match :: "regex \<Rightarrow> mstate \<Rightarrow> mstate \<Rightarrow> bool" where
  \<comment> \<open>\<open>st'\<close> is the first state the matcher returns from \<open>st\<close>: the match \<^verbatim>\<open>re\<close> reports\<close>
  "first_match r st st' = (\<exists>others. ms r st = st' # others)"

section \<open>Lemmas\<close>

subsection \<open>What a match captures\<close>

lemma star_iter_rel:
  assumes step: "\<And>a b. b \<in> set (f a) \<Longrightarrow> R a b"
    and refl: "\<And>a. R a a"
    and trans: "\<And>a b c. R a b \<Longrightarrow> R b c \<Longrightarrow> R a c"
  shows "st' \<in> set (star_iter f n st) \<Longrightarrow> R st st'"
proof (induction n arbitrary: st)
  case 0
  then show ?case by (simp add: refl)
next
  case (Suc n)
  from Suc.prems consider "st' = st"
    | st1 where "st1 \<in> set (f st)" "st' \<in> set (star_iter f n st1)"
    by auto
  then show ?case
  proof cases
    case 1
    then show ?thesis by (simp add: refl)
  next
    case 2
    then show ?thesis using Suc.IH step trans by blast
  qed
qed

lemma ms_seq_iff:
  "st' \<in> set (ms (Seq a b) st) \<longleftrightarrow> (\<exists>st1 \<in> set (ms a st). st' \<in> set (ms b st1))"
  by auto

lemma ms_sym_iff:
  "st' \<in> set (ms (Sym p) st) \<longleftrightarrow> (\<exists>c. fst st = c # fst st' \<and> p c \<and> snd st' = snd st)"
  by (cases st; cases st') (auto split: list.splits)

lemma ms_groups_unchanged:
  "st' \<in> set (ms r st) \<Longrightarrow> k \<notin> groups_of r \<Longrightarrow> snd st' k = snd st k"
proof (induction r arbitrary: st st')
  case (Sym p)
  then show ?case unfolding ms_sym_iff by auto
next
  case (Seq a b)
  from Seq.prems obtain st1 where "st1 \<in> set (ms a st)" "st' \<in> set (ms b st1)"
    and "k \<notin> groups_of a" "k \<notin> groups_of b" by auto
  then show ?case using Seq.IH by metis
next
  case (Alt a b)
  from Alt.prems have "st' \<in> set (ms a st) \<or> st' \<in> set (ms b st)"
    and "k \<notin> groups_of a" "k \<notin> groups_of b" by auto
  then show ?case using Alt.IH by blast
next
  case (Star a)
  have "snd st' k = snd st k"
  proof (rule star_iter_rel [where R = "\<lambda>x y. snd y k = snd x k" and f = "ms a"])
    show "st' \<in> set (star_iter (ms a) (length (fst st)) st)" using Star.prems by simp
  next
    fix x y assume "y \<in> set (ms a x)"
    then show "snd y k = snd x k" using Star.IH Star.prems by simp
  qed simp_all
  then show ?case .
next
  case (Group n a)
  from Group.prems obtain st0 where "st0 \<in> set (ms a st)" "snd st' k = snd st0 k"
    and "k \<notin> groups_of a" by auto
  then show ?case using Group.IH by metis
qed (auto split: if_splits)

lemma ms_suffix:
  "st' \<in> set (ms r st) \<Longrightarrow> \<exists>w. fst st = w @ fst st'"
proof (induction r arbitrary: st st')
  case (Sym p)
  then obtain c where "fst st = [c] @ fst st'" unfolding ms_sym_iff by auto
  then show ?case by blast
next
  case (Seq a b)
  then obtain st1 where "st1 \<in> set (ms a st)" "st' \<in> set (ms b st1)" by auto
  with Seq.IH obtain w1 w2 where "fst st = w1 @ fst st1" "fst st1 = w2 @ fst st'" by blast
  then have "fst st = (w1 @ w2) @ fst st'" by simp
  then show ?case by blast
next
  case (Alt a b)
  from Alt.prems have "st' \<in> set (ms a st) \<or> st' \<in> set (ms b st)" by auto
  then show ?case using Alt.IH by blast
next
  case (Star a)
  show ?case
  proof (rule star_iter_rel [where R = "\<lambda>x y. \<exists>w. fst x = w @ fst y" and f = "ms a"])
    show "st' \<in> set (star_iter (ms a) (length (fst st)) st)" using Star.prems by simp
  next
    fix x y assume "y \<in> set (ms a x)"
    then show "\<exists>w. fst x = w @ fst y" using Star.IH by simp
  next
    fix x :: mstate show "\<exists>w. fst x = w @ fst x" by simp
  next
    fix x y z :: mstate assume "\<exists>w. fst x = w @ fst y" "\<exists>w. fst y = w @ fst z"
    then obtain w1 w2 where "fst x = w1 @ fst y" "fst y = w2 @ fst z" by blast
    then have "fst x = (w1 @ w2) @ fst z" by simp
    then show "\<exists>w. fst x = w @ fst z" by blast
  qed
next
  case (Group n a)
  then obtain st0 where "st0 \<in> set (ms a st)" "fst st' = fst st0" by auto
  then show ?case using Group.IH by metis
qed (auto split: if_splits)

lemma ms_star_sym:
  assumes "st' \<in> set (ms (Star (Sym q)) st)"
  shows "\<exists>w. fst st = w @ fst st' \<and> list_all q w \<and> snd st' = snd st"
proof (rule star_iter_rel [where R = "\<lambda>x y. \<exists>w. fst x = w @ fst y \<and> list_all q w \<and> snd y = snd x"
      and f = "ms (Sym q)"])
  show "st' \<in> set (star_iter (ms (Sym q)) (length (fst st)) st)" using assms by simp
next
  fix x y assume "y \<in> set (ms (Sym q) x)"
  then have "fst x = [hd (fst x)] @ fst y \<and> list_all q [hd (fst x)] \<and> snd y = snd x"
    unfolding ms_sym_iff by auto
  then show "\<exists>w. fst x = w @ fst y \<and> list_all q w \<and> snd y = snd x" by blast
next
  fix x :: mstate show "\<exists>w. fst x = w @ fst x \<and> list_all q w \<and> snd x = snd x" by simp
next
  fix x y z :: mstate
  assume "\<exists>w. fst x = w @ fst y \<and> list_all q w \<and> snd y = snd x"
    "\<exists>w. fst y = w @ fst z \<and> list_all q w \<and> snd z = snd y"
  then obtain w1 w2 where "fst x = w1 @ fst y" "list_all q w1" "snd y = snd x"
    "fst y = w2 @ fst z" "list_all q w2" "snd z = snd y" by blast
  then have "fst x = (w1 @ w2) @ fst z \<and> list_all q (w1 @ w2) \<and> snd z = snd x" by simp
  then show "\<exists>w. fst x = w @ fst z \<and> list_all q w \<and> snd z = snd x" by blast
qed

lemma ms_name:
  assumes "st' \<in> set (ms re_name st)"
  shows "\<exists>w. fst st = w @ fst st' \<and> is_name w \<and> snd st' = snd st"
proof -
  from assms obtain st1 where a: "st1 \<in> set (ms (Sym isalpha_char) st)"
    and b: "st' \<in> set (ms (Star (Sym isname_char)) st1)"
    unfolding re_name_def ms_seq_iff by blast
  from a have a': "fst st = hd (fst st) # fst st1" "isalpha_char (hd (fst st))" "snd st1 = snd st"
    unfolding ms_sym_iff by auto
  from ms_star_sym [OF b] obtain w where w: "fst st1 = w @ fst st'" "list_all isname_char w"
    "snd st' = snd st1" by blast
  have "fst st = (hd (fst st) # w) @ fst st'" using a'(1) w(1) by simp
  moreover have "is_name (hd (fst st) # w)" using a'(2) w(2) by (simp add: is_name_def)
  ultimately show ?thesis using w(3) a'(3) by metis
qed

lemma ms_group_name:
  assumes "st' \<in> set (ms (Group n re_name) st)"
  shows "\<exists>w. snd st' n = Some w \<and> is_name w"
proof -
  from assms obtain st0 where m: "st0 \<in> set (ms re_name st)"
    and e: "st' = (fst st0, (snd st0)(n \<mapsto> take (length (fst st) - length (fst st0)) (fst st)))"
    by auto
  from ms_name [OF m] obtain w where "fst st = w @ fst st0" "is_name w" by blast
  then show ?thesis using e by simp
qed

lemma ms_after_group_name:
  assumes "st' \<in> set (ms (Seq (Group n re_name) rest) st)" and "n \<notin> groups_of rest"
  shows "\<exists>w. snd st' n = Some w \<and> is_name w"
proof -
  from assms(1) obtain st1 where "st1 \<in> set (ms (Group n re_name) st)" "st' \<in> set (ms rest st1)"
    unfolding ms_seq_iff by blast
  then show ?thesis using ms_group_name ms_groups_unchanged [OF _ assms(2)] by metis
qed

lemma re_match_SomeD:
  "re_match r s = Some g \<Longrightarrow> \<exists>st. st \<in> set (ms r (s, Map.empty)) \<and> snd st = g"
  by (auto simp: re_match_def split: list.splits)

lemma groups_of_simps [simp]:
  "groups_of (re_plus r) = groups_of r"
  "groups_of (re_opt r) = groups_of r"
  "groups_of re_space = {}" "groups_of re_digit = {}" "groups_of re_dot = {}"
  "groups_of (re_chr c) = {}" "groups_of re_name = {}"
  by (simp_all add: re_plus_def re_opt_def re_space_def re_digit_def re_dot_def re_chr_def re_name_def)

lemma groups_of_lit [simp]: "groups_of (re_lit s) = {}"
  by (induction s) (simp_all add: re_lit_def re_seqs_def)

lemma re_seqs_simps: "re_seqs [] = Eps" "re_seqs (r # rs) = Seq r (re_seqs rs)"
  by (simp_all add: re_seqs_def)

lemma ms_seqs_group_name:
  "st' \<in> set (ms (re_seqs (pre @ Group n re_name # post)) st) \<Longrightarrow> n \<notin> groups_of (re_seqs post)
    \<Longrightarrow> \<exists>w. snd st' n = Some w \<and> is_name w"
proof (induction pre arbitrary: st)
  case Nil
  then show ?case using ms_after_group_name by (simp only: append_Nil re_seqs_simps)
next
  case (Cons a pre)
  from Cons.prems(1) obtain st1 where "st' \<in> set (ms (re_seqs (pre @ Group n re_name # post)) st1)"
    unfolding append_Cons re_seqs_simps ms_seq_iff by blast
  then show ?case using Cons.IH Cons.prems(2) by blast
qed

lemma group_name_after2:
  assumes "pat = re_seqs (a # b # Group n re_name # post)" and "n \<notin> groups_of (re_seqs post)"
    and "re_match pat s = Some g"
  shows "\<exists>w. g n = Some w \<and> is_name w"
  using ms_seqs_group_name [of _ "[a, b]" n post] re_match_SomeD [OF assms(3)] assms(1,2)
  by auto

lemma group_name_after4:
  assumes "pat = re_seqs (a # b # c # d # Group n re_name # post)"
    and "n \<notin> groups_of (re_seqs post)" and "re_match pat s = Some g"
  shows "\<exists>w. g n = Some w \<and> is_name w"
  using ms_seqs_group_name [of _ "[a, b, c, d]" n post] re_match_SomeD [OF assms(3)] assms(1,2)
  by auto

lemma item_pattern_name: "re_match item_pattern s = Some g \<Longrightarrow> \<exists>w. g 1 = Some w \<and> is_name w"
  by (rule group_name_after2 [OF item_pattern_def]) (simp_all add: re_seqs_simps re_alts_def)


lemma proc_pattern_name: "re_match proc_pattern s = Some g \<Longrightarrow> \<exists>w. g 1 = Some w \<and> is_name w"
  by (rule group_name_after2 [OF proc_pattern_def]) (simp_all add: re_seqs_simps)

lemma def_pattern_name: "re_match def_pattern s = Some g \<Longrightarrow> \<exists>w. g 2 = Some w \<and> is_name w"
  by (rule group_name_after4 [OF def_pattern_def]) (simp_all add: re_seqs_simps)

lemma ref_pattern_name: "re_match ref_pattern s = Some g \<Longrightarrow> \<exists>w. g 2 = Some w \<and> is_name w"
  by (rule group_name_after4 [OF ref_pattern_def]) (simp_all add: re_seqs_simps)

subsection \<open>The scope and the keys of the items\<close>


lemma isname_char_not_dot: "isname_char c \<Longrightarrow> c \<noteq> CHR ''.''"
  by (auto simp: isname_char_def isalpha_char_def isupper_char_def islower_char_def isdigit_char_def)

lemma isalpha_char_not_dot: "isalpha_char c \<Longrightarrow> c \<noteq> CHR ''.''"
  by (auto simp: isalpha_char_def isupper_char_def islower_char_def)

lemma is_name_no_dot: "is_name w \<Longrightarrow> CHR ''.'' \<notin> set w"
proof -
  assume a: "is_name w"
  then obtain c cs where w: "w = c # cs" by (cases w) (auto simp: is_name_def)
  with a have "isalpha_char c" "list_all isname_char cs" by (simp_all add: is_name_def)
  then show ?thesis using w isalpha_char_not_dot isname_char_not_dot
    by (auto simp: list_all_iff)
qed

lemma items_add_item:
  "current_scope m = ''GLOBAL'' \<Longrightarrow>
     items (add_item m it) = AList.update (item_name it) it (items m)"
  by (simp add: add_item_def)

lemma add_item_other [simp]:
  "current_scope (add_item m it) = current_scope m"
  "tables (add_item m it) = tables m"
  "procs (add_item m it) = procs m"
  "model_defines (add_item m it) = model_defines m"
  by (simp_all add: add_item_def Let_def)

lemma scope_global_add_item:
  "scope_global m \<Longrightarrow> is_name (item_name it) \<Longrightarrow> scope_global (add_item m it)"
  by (auto simp: scope_global_def items_add_item list_all_iff AList.dom_update)

lemma scope_global_cong:
  "scope_global m \<Longrightarrow> current_scope m' = current_scope m \<Longrightarrow> items m' = items m \<Longrightarrow> scope_global m'"
  by (simp add: scope_global_def)

lemma scope_global_parse_start:
  "scope_global (model p) \<Longrightarrow> scope_global (model (parse_start p s i))"
  by (auto simp: parse_start_def Let_def scope_global_def split: option.splits)

lemma scope_global_parse_compool_start:
  "scope_global (model p) \<Longrightarrow> scope_global (model (parse_compool_start p s i))"
  by (auto simp: parse_compool_start_def Let_def scope_global_def split: option.splits)

lemma scope_global_handle_begin:
  "scope_global (model p) \<Longrightarrow> scope_global (model (handle_begin p i))"
  by (auto simp: handle_begin_def Let_def scope_global_def split: option.splits)

lemma scope_global_handle_end:
  "scope_global (model p) \<Longrightarrow> scope_global (model (handle_end p i))"
  by (auto simp: handle_end_def Let_def scope_global_def split: option.splits)

lemma scope_global_parse_proc:
  "scope_global (model p) \<Longrightarrow> scope_global (model (parse_proc_declaration p s i))"
  by (auto simp: parse_proc_declaration_def Let_def scope_global_def add_proc_def split: option.splits)

lemma scope_global_parse_type:
  "scope_global (model p) \<Longrightarrow> scope_global (model (parse_type_declaration p s i))"
  by (auto simp: parse_type_declaration_def Let_def scope_global_def split: option.splits)

lemma scope_global_parse_define:
  "scope_global (model p) \<Longrightarrow> scope_global (model (parse_define p s i))"
  by (auto simp: parse_define_def Let_def scope_global_def split: option.splits)

lemma scope_global_parse_ref:
  "scope_global (model p) \<Longrightarrow> scope_global (model (parse_ref_reference p s i))"
  by (auto simp: parse_ref_reference_def Let_def scope_global_def add_proc_def split: option.splits)

lemma scope_global_parse_def:
  assumes "scope_global (model p)"
  shows "scope_global (model (parse_def_reference p s i))"
proof (cases "re_match def_pattern (strip (rstrip_chars '';'' s))")
  case None
  then show ?thesis using assms by (simp add: parse_def_reference_def)
next
  case (Some g)
  from def_pattern_name [OF Some] obtain w where w: "g 2 = Some w" "is_name w" by blast
  have "scope_global (add_item (model p) ((new_item w UNKNOWN)\<lparr>item_line_number := i\<rparr>))"
    using assms w(2) by (intro scope_global_add_item) (simp_all add: new_item_def)
  then show ?thesis using assms Some w(1) by (simp add: parse_def_reference_def Let_def)
qed

lemma scope_global_parse_table:
  "scope_global (model p) \<Longrightarrow> parse_table_declaration p s i = Inr p' \<Longrightarrow> scope_global (model p')"
  by (auto simp: parse_table_declaration_def Let_def scope_global_def add_table_def
      split: option.splits sum.splits)

lemma ms_plus_sym:
  assumes "st' \<in> set (ms (re_plus (Sym q)) st)"
  shows "\<exists>w. fst st = w @ fst st' \<and> w \<noteq> [] \<and> list_all q w \<and> snd st' = snd st"
proof -
  from assms obtain st1 where a: "st1 \<in> set (ms (Sym q) st)"
    and b: "st' \<in> set (ms (Star (Sym q)) st1)"
    unfolding re_plus_def ms_seq_iff by blast
  from a obtain c where c: "fst st = c # fst st1" "q c" "snd st1 = snd st"
    unfolding ms_sym_iff by blast
  from ms_star_sym [OF b] obtain w where w: "fst st1 = w @ fst st'" "list_all q w"
    "snd st' = snd st1" by blast
  have "fst st = (c # w) @ fst st' \<and> c # w \<noteq> [] \<and> list_all q (c # w) \<and> snd st' = snd st"
    using c w by simp
  then show ?thesis by blast
qed

lemma ms_seqs_append:
  "st' \<in> set (ms (re_seqs (pre @ post)) st) \<Longrightarrow>
     \<exists>st1. st1 \<in> set (ms (re_seqs pre) st) \<and> st' \<in> set (ms (re_seqs post) st1)"
proof (induction pre arbitrary: st)
  case Nil
  then show ?case by (simp add: re_seqs_simps)
next
  case (Cons a pre)
  from Cons.prems obtain st0 where a: "st0 \<in> set (ms a st)"
    and "st' \<in> set (ms (re_seqs (pre @ post)) st0)"
    unfolding append_Cons re_seqs_simps ms_seq_iff by blast
  with Cons.IH obtain st1 where "st1 \<in> set (ms (re_seqs pre) st0)"
    "st' \<in> set (ms (re_seqs post) st1)" by blast
  with a show ?case unfolding re_seqs_simps ms_seq_iff by blast
qed

lemma ms_opt_group_digits:
  assumes "st' \<in> set (ms (re_opt (Group n (re_plus re_digit))) st)"
  shows "snd st' n = snd st n \<or> (\<exists>w. snd st' n = Some w \<and> is_digits w)"
proof -
  from assms consider "st' = st" | "st' \<in> set (ms (Group n (re_plus re_digit)) st)"
    by (auto simp: re_opt_def)
  then show ?thesis
  proof cases
    case 1
    then show ?thesis by simp
  next
    case 2
    then obtain st0 where m: "st0 \<in> set (ms (re_plus (Sym isdigit_char)) st)"
      and e: "st' = (fst st0, (snd st0)(n \<mapsto> take (length (fst st) - length (fst st0)) (fst st)))"
      by (auto simp: re_digit_def)
    from ms_plus_sym [OF m] obtain w where "fst st = w @ fst st0" "w \<noteq> []"
      "list_all isdigit_char w" by blast
    then show ?thesis using e by (simp add: is_digits_def)
  qed
qed

lemma item_pattern_size:
  assumes "re_match item_pattern s = Some g"
  shows "g 4 = None \<or> (\<exists>w. g 4 = Some w \<and> is_digits w)"
proof -
  let ?pre = "[re_lit ''ITEM'', re_plus re_space, Group 1 re_name, re_plus re_space,
              Star (Group 2 (re_alts [Seq (re_lit ''STATIC'') (re_plus re_space),
                                      Seq (re_lit ''CONSTANT'') (re_plus re_space),
                                      Seq (re_lit ''PARALLEL'') (re_plus re_space)])),
              Group 3 (re_alts [re_lit ''S'', re_lit ''U'', re_lit ''F'', re_lit ''A'',
                                re_lit ''B'', re_lit ''C'', re_lit ''P'', re_lit ''STATUS'']),
              Star re_space]"
  let ?post = "[re_opt (Group 4 (re_plus re_digit)), Group 5 (Star re_dot)]"
  have eq: "item_pattern = re_seqs (?pre @ ?post)" by (simp add: item_pattern_def)
  from re_match_SomeD [OF assms] obtain st where st: "st \<in> set (ms (re_seqs (?pre @ ?post)) (s, Map.empty))"
    "snd st = g" unfolding eq by blast
  from ms_seqs_append [OF st(1)] obtain st1 where st1: "st1 \<in> set (ms (re_seqs ?pre) (s, Map.empty))"
    and rest: "st \<in> set (ms (re_seqs ?post) st1)" by blast
  have "4 \<notin> groups_of (re_seqs ?pre)" by (simp add: re_seqs_simps re_alts_def)
  from ms_groups_unchanged [OF st1 this] have n1: "snd st1 4 = None" by simp
  from rest obtain st2 where st2: "st2 \<in> set (ms (re_opt (Group 4 (re_plus re_digit))) st1)"
    and fin: "st \<in> set (ms (re_seqs [Group 5 (Star re_dot)]) st2)"
    unfolding re_seqs_simps(2) [of "re_opt _"] ms_seq_iff by blast
  have "4 \<notin> groups_of (re_seqs [Group 5 (Star re_dot)])" by (simp add: re_seqs_simps)
  from ms_groups_unchanged [OF fin this] have "snd st 4 = snd st2 4" .
  with ms_opt_group_digits [OF st2] n1 st(2) show ?thesis by auto
qed

lemma not_isspace_digit: "isdigit_char c \<Longrightarrow> \<not> isspace c"
  by (auto simp: isdigit_char_def isspace_def Let_def)

lemma dropWhile_id: "w \<noteq> [] \<Longrightarrow> \<not> P (hd w) \<Longrightarrow> dropWhile P w = w"
  by (cases w) simp_all

lemma strip_id: "w \<noteq> [] \<Longrightarrow> \<not> isspace (hd w) \<Longrightarrow> \<not> isspace (last w) \<Longrightarrow> strip w = w"
  by (simp add: strip_def lstrip_def rstrip_def dropWhile_id hd_rev)

lemma underscores_ok_digits: "w \<noteq> [] \<Longrightarrow> list_all isdigit_char w \<Longrightarrow> underscores_ok w"
proof (induction w rule: underscores_ok.induct)
  case (3 c d cs)
  then have "d \<noteq> CHR ''_''" by (auto simp: isdigit_char_def)
  with 3 show ?case by simp
qed simp_all

lemma py_int_digits:
  assumes "is_digits w" and "length w \<le> int_max_str_digits"
  shows "py_int w = Inr (digits_value w)"
proof -
  from assms have ne: "w \<noteq> []" and all: "list_all isdigit_char w" by (simp_all add: is_digits_def)
  then have "isdigit_char (hd w)" "isdigit_char (last w)" by (auto simp: list_all_iff)
  then have s: "strip w = w" and h: "hd w \<noteq> CHR ''-''" "hd w \<noteq> CHR ''+''"
    using ne not_isspace_digit by (auto intro: strip_id simp: isdigit_char_def)
  have f: "filter (\<lambda>c. c \<noteq> CHR ''_'') w = w"
    using all by (auto simp: list_all_iff isdigit_char_def intro!: filter_True)
  show ?thesis using ne h underscores_ok_digits [OF ne all] assms(2)
    by (simp add: py_int_def s f)
qed

lemma py_int_too_long:
  assumes "is_digits w" and "int_max_str_digits < length w"
  shows "py_int w = Inl ValueError"
proof -
  from assms have ne: "w \<noteq> []" and all: "list_all isdigit_char w" by (simp_all add: is_digits_def)
  then have "isdigit_char (hd w)" "isdigit_char (last w)" by (auto simp: list_all_iff)
  then have s: "strip w = w" and h: "hd w \<noteq> CHR ''-''" "hd w \<noteq> CHR ''+''"
    using ne not_isspace_digit by (auto intro: strip_id simp: isdigit_char_def)
  have f: "filter (\<lambda>c. c \<noteq> CHR ''_'') w = w"
    using all by (auto simp: list_all_iff isdigit_char_def intro!: filter_True)
  show ?thesis using ne h assms(2) by (simp add: py_int_def s f)
qed

lemma parse_item_declaration_Inr:
  assumes "re_match item_pattern (strip (rstrip_chars '';'' s)) = Some g"
    and "parse_item_declaration p s i = Inr p'"
  shows "\<exists>sz. p' = p\<lparr>model := place_item p (the (g 1)) (item_of_match p s i g sz)\<rparr>"
  using assms by (auto simp: parse_item_declaration_def split: if_splits sum.splits)

lemma parse_item_declaration_matched:
  assumes "re_match item_pattern (strip (rstrip_chars '';'' s)) = Some g"
    and "length (or_empty (g 4)) \<le> int_max_str_digits"
  shows "\<exists>sz. parse_item_declaration p s i =
           Inr (p\<lparr>model := place_item p (the (g 1)) (item_of_match p s i g sz)\<rparr>)"
proof -
  from item_pattern_size [OF assms(1)] have "g 4 = None \<or> (\<exists>w. g 4 = Some w \<and> is_digits w)" .
  then show ?thesis
  proof
    assume "g 4 = None"
    then have "parse_item_declaration p s i =
        Inr (p\<lparr>model := place_item p (the (g 1)) (item_of_match p s i g None)\<rparr>)"
      using assms by (simp add: parse_item_declaration_def truthy_def)
    then show ?thesis by blast
  next
    assume "\<exists>w. g 4 = Some w \<and> is_digits w"
    then obtain w where w: "g 4 = Some w" "is_digits w" by blast
    then have "parse_item_declaration p s i =
        Inr (p\<lparr>model := place_item p (the (g 1)) (item_of_match p s i g (Some (digits_value w)))\<rparr>)"
      using assms py_int_digits [OF w(2)]
      by (simp add: parse_item_declaration_def truthy_def is_digits_def or_empty_def)
    then show ?thesis by blast
  qed
qed

lemma parse_item_declaration_unmatched:
  "re_match item_pattern (strip (rstrip_chars '';'' s)) = None \<Longrightarrow> parse_item_declaration p s i = Inr p"
  by (simp add: parse_item_declaration_def)

lemma item_of_match_fields [simp]:
  "item_name (item_of_match p s i g sz) = the (g 1)"
  "item_line_number (item_of_match p s i g sz) = i"
  "parent_table (item_of_match p s i g sz) = current_table p"
  by (simp_all add: item_of_match_def Let_def)

lemma place_item_scope:
  "current_scope (place_item p n it) = current_scope (model p)"
  by (simp add: place_item_def Let_def split: option.splits)

lemma place_item_items:
  "current_scope (model p) = ''GLOBAL'' \<Longrightarrow>
     items (place_item p n it) = AList.update (item_name it) it (items (model p))"
  by (simp add: place_item_def Let_def items_add_item split: option.splits)

lemma scope_global_parse_item:
  assumes "scope_global (model p)" and "parse_item_declaration p s i = Inr p'"
  shows "scope_global (model p')"
proof (cases "re_match item_pattern (strip (rstrip_chars '';'' s))")
  case None
  then show ?thesis using assms by (simp add: parse_item_declaration_unmatched)
next
  case (Some g)
  from item_pattern_name [OF Some] obtain w where w: "g 1 = Some w" "is_name w" by blast
  from parse_item_declaration_Inr [OF Some assms(2)] obtain sz
    where p': "p' = p\<lparr>model := place_item p (the (g 1)) (item_of_match p s i g sz)\<rparr>" by blast
  from assms(1) have g: "current_scope (model p) = ''GLOBAL''" by (simp add: scope_global_def)
  show ?thesis using assms(1) w
    by (auto simp: p' scope_global_def place_item_scope place_item_items [OF g] list_all_iff AList.dom_update)
qed

lemma scope_global_parse_statement:
  assumes "scope_global (model p)" and "parse_statement p s i = Inr p'"
  shows "scope_global (model p')"
  using assms
  by (auto simp: parse_statement_def Let_def split: if_splits
      intro: scope_global_parse_start scope_global_parse_compool_start scope_global_handle_begin
        scope_global_handle_end scope_global_parse_item scope_global_parse_table
        scope_global_parse_proc scope_global_parse_type scope_global_parse_define
        scope_global_parse_def scope_global_parse_ref)

lemma parse_lines_invariant:
  assumes stmt: "\<And>p s i p'. I p \<Longrightarrow> parse_statement p s i = Inr p' \<Longrightarrow> I p'"
    and line: "\<And>p i. I p \<Longrightarrow> I (p\<lparr>current_line_num := i\<rparr>)"
  shows "I p \<Longrightarrow> parse_lines p buf i ls = Inr (p', buf') \<Longrightarrow> I p'"
proof (induction ls arbitrary: p buf i)
  case Nil
  then show ?case by simp
next
  case (Cons l ls)
  let ?p1 = "p\<lparr>current_line_num := i\<rparr>"
  let ?st = "strip (remove_comments l)"
  have I1: "I ?p1" using Cons.prems(1) line by blast
  show ?case
  proof (cases "?st = []")
    case True
    then show ?thesis using Cons.prems(2) Cons.IH [OF I1] by (simp add: Let_def)
  next
    case False
    show ?thesis
    proof (cases "is_complete ?st")
      case True
      with False Cons.prems(2) obtain p2 where
        a: "parse_statement ?p1 (strip (buf @ '' '' @ ?st)) i = Inr p2"
        and b: "parse_lines p2 [] (i + 1) ls = Inr (p', buf')"
        by (auto simp: Let_def split: sum.splits)
      from stmt [OF I1 a] have "I p2" .
      then show ?thesis using Cons.IH b by blast
    next
      case c: False
      with False Cons.prems(2) show ?thesis using Cons.IH [OF I1] by (simp add: Let_def)
    qed
  qed
qed

lemma scope_global_new_model: "scope_global new_model"
  by (simp add: scope_global_def new_model_def)

lemma parse_scope_global:
  assumes "parse self code = Inr (p, m)"
  shows "scope_global m"
proof -
  from assms obtain buf where run: "parse_lines (begin_parse self code) [] 0 (lines (begin_parse self code)) = Inr (p, buf)"
    and m: "m = model p"
    by (auto simp: parse_def Let_def split: sum.splits)
  have "scope_global (model p)"
  proof (rule parse_lines_invariant [where I = "\<lambda>p. scope_global (model p)", OF _ _ _ run])
    show "scope_global (model (begin_parse self code))"
      by (simp add: begin_parse_def scope_global_new_model)
  qed (auto intro: scope_global_parse_statement)
  then show ?thesis by (simp add: m)
qed

subsection \<open>The table context\<close>

lemma add_proc_other [simp]:
  "tables (add_proc m pr) = tables m" "items (add_proc m pr) = items m"
  by (simp_all add: add_proc_def)



















subsection \<open>The entries of the tables\<close>













lemma tables_add_item [simp]: "tables (add_item m it) = tables m"
  by (simp add: add_item_def Let_def)









subsection \<open>The line loop\<close>

lemma is_complete_nonempty: "is_complete s \<Longrightarrow> s \<noteq> []"
  by (auto simp: is_complete_def endswith_def upper_def)



lemma startswith_Cons: "startswith (c # cs) s \<Longrightarrow> \<exists>t. s = c # t"
  by (cases s) (auto simp: startswith_def)

lemma parse_statement_item:
  assumes "startswith ''ITEM'' (upper s)"
  shows "parse_statement p s i = parse_item_declaration p s i"
proof -
  from startswith_Cons [OF assms] obtain t where t: "upper s = CHR ''I'' # t" by blast
  have "\<not> startswith ''START'' (upper s)" "\<not> startswith ''TERM'' (upper s)"
    "\<not> startswith ''COMPOOL'' (upper s)" "upper s \<noteq> ''BEGIN''" "upper s \<noteq> ''END''"
    by (simp_all add: t startswith_def)
  then show ?thesis using assms by (simp add: parse_statement_def Let_def)
qed

subsection \<open>Statements that span lines\<close>

lemma accumulate_Cons:
  "accumulate buf (l # ls) =
     accumulate (if strip (remove_comments l) = [] then buf
                 else buf @ '' '' @ strip (remove_comments l)) ls"
  by (simp add: accumulate_def)

lemma accumulate_Nil: "accumulate buf [] = buf"
  by (simp add: accumulate_def)

lemma parse_lines_statement:
  assumes "\<forall>l \<in> set ls. \<not> is_complete (strip (remove_comments l))"
    and "is_complete (strip (remove_comments l_end))"
  shows "parse_lines p buf i (ls @ l_end # rest) =
     (case parse_statement (p\<lparr>current_line_num := i + int (length ls)\<rparr>)
             (strip (accumulate buf (ls @ [l_end]))) (i + int (length ls)) of
        Inl e \<Rightarrow> Inl e
      | Inr p2 \<Rightarrow> parse_lines p2 [] (i + int (length ls) + 1) rest)"
  using assms(1)
proof (induction ls arbitrary: p buf i)
  case Nil
  show ?case using assms(2) is_complete_nonempty [OF assms(2)]
    by (simp add: Let_def accumulate_Cons accumulate_Nil cong: sum.case_cong)
next
  case (Cons l ls)
  let ?p1 = "p\<lparr>current_line_num := i\<rparr>"
  let ?b1 = "if strip (remove_comments l) = [] then buf else buf @ '' '' @ strip (remove_comments l)"
  from Cons.prems have nc: "\<not> is_complete (strip (remove_comments l))"
    and rest: "\<forall>l \<in> set ls. \<not> is_complete (strip (remove_comments l))" by simp_all
  have step: "parse_lines p buf i ((l # ls) @ l_end # rest) =
      parse_lines ?p1 ?b1 (i + 1) (ls @ l_end # rest)"
    using nc by (simp add: Let_def)
  have idx: "i + 1 + int (length ls) = i + int (length (l # ls))" by simp
  show ?case
    unfolding step Cons.IH [OF rest] idx
    by (simp add: accumulate_Cons cong: sum.case_cong)
qed

lemma split_on_no_sep: "d \<notin> set a \<Longrightarrow> split_on d a = [a]"
  by (induction a) (auto simp: Let_def)

lemma split_on_append_sep: "d \<notin> set a \<Longrightarrow> split_on d (a @ d # r) = a # split_on d r"
  by (induction a) (auto simp: Let_def)

lemma place_item_fresh:
  assumes "model p = new_model"
  shows "items (place_item p n it) = [(item_name it, it)]"
proof -
  have "current_scope (model p) = ''GLOBAL''" "items (model p) = []"
    by (simp_all add: assms new_model_def)
  then show ?thesis by (simp add: place_item_items)
qed

lemma three_line_item:
  assumes nl: "CHR 0x0A \<notin> set a" "CHR 0x0A \<notin> set b" "CHR 0x0A \<notin> set c"
    and inc: "\<not> is_complete (strip (remove_comments a))" "\<not> is_complete (strip (remove_comments b))"
    and com: "is_complete (strip (remove_comments c))"
    and it: "startswith ''ITEM'' (upper (strip (accumulate [] [a, b, c])))"
    and m: "re_match item_pattern (strip (rstrip_chars '';'' (strip (accumulate [] [a, b, c])))) = Some g"
    and sz: "length (or_empty (g 4)) \<le> int_max_str_digits"
  shows "\<exists>p' m item. parse self (a @ [CHR 0x0A] @ b @ [CHR 0x0A] @ c) = Inr (p', m)
           \<and> items m = [(the (g 1), item)] \<and> item_line_number item = 2"
proof -
  let ?code = "a @ [CHR 0x0A] @ b @ [CHR 0x0A] @ c"
  let ?p0 = "begin_parse self ?code"
  let ?p1 = "?p0\<lparr>current_line_num := 2\<rparr>"
  let ?stmt = "strip (accumulate [] [a, b, c])"
  have ls: "lines ?p0 = [a, b] @ c # []"
    using nl by (simp add: begin_parse_def split_on_append_sep split_on_no_sep)
  have inc': "\<forall>l \<in> set [a, b]. \<not> is_complete (strip (remove_comments l))" using inc by simp
  from parse_item_declaration_matched [OF m sz, of ?p1 2] obtain sz where
    pid: "parse_item_declaration ?p1 ?stmt 2 =
            Inr (?p1\<lparr>model := place_item ?p1 (the (g 1)) (item_of_match ?p1 ?stmt 2 g sz)\<rparr>)"
    by blast
  let ?item = "item_of_match ?p1 ?stmt 2 g sz"
  let ?p' = "?p1\<lparr>model := place_item ?p1 (the (g 1)) ?item\<rparr>"
  have "parse_lines ?p0 [] 0 ([a, b] @ c # []) =
      (case parse_statement (?p0\<lparr>current_line_num := 0 + int (length [a, b])\<rparr>)
              (strip (accumulate [] ([a, b] @ [c]))) (0 + int (length [a, b])) of
         Inl e \<Rightarrow> Inl e
       | Inr p2 \<Rightarrow> parse_lines p2 [] (0 + int (length [a, b]) + 1) [])"
    by (rule parse_lines_statement [OF inc' com])
  also have "\<dots> = (case parse_statement ?p1 ?stmt 2 of
         Inl e \<Rightarrow> Inl e | Inr p2 \<Rightarrow> Inr (p2, []))"
    by (simp cong: sum.case_cong)
  also have "\<dots> = Inr (?p', [])"
    by (simp only: parse_statement_item [OF it] pid sum.case)
  finally have run: "parse_lines ?p0 [] 0 (lines ?p0) = Inr (?p', [])" by (simp only: ls)
  have res: "parse self ?code = Inr (?p', model ?p')"
    by (simp only: parse_def Let_def run sum.case prod.case)
  have mp: "model ?p1 = new_model" by (simp add: begin_parse_def)
  have "parse self ?code = Inr (?p', model ?p') \<and> items (model ?p') = [(the (g 1), ?item)]
      \<and> item_line_number ?item = 2"
    using res place_item_fresh [OF mp, of "the (g 1)" ?item] by simp
  then show ?thesis by blast
qed

subsection \<open>The first match of a pattern\<close>

lemma first_match_re_match:
  "first_match r (s, Map.empty) st' \<Longrightarrow> re_match r s = Some (snd st')"
  by (auto simp: first_match_def re_match_def)

lemma first_match_seq:
  "first_match a st x \<Longrightarrow> first_match b x y \<Longrightarrow> first_match (Seq a b) st y"
  by (auto simp: first_match_def)

lemma first_match_eps: "first_match Eps st st"
  by (simp add: first_match_def)

lemma first_match_alt1: "first_match a st x \<Longrightarrow> first_match (Alt a b) st x"
  by (auto simp: first_match_def)

lemma first_match_opt: "first_match a st x \<Longrightarrow> first_match (re_opt a) st x"
  by (simp add: re_opt_def first_match_alt1)

lemma first_match_group:
  "first_match a st x \<Longrightarrow>
     first_match (Group n a) st
       (fst x, (snd x)(n \<mapsto> take (length (fst st) - length (fst x)) (fst st)))"
  by (auto simp: first_match_def)

lemma first_match_sym: "q c \<Longrightarrow> first_match (Sym q) (c # s, g) (s, g)"
  by (simp add: first_match_def)

lemma first_match_star_sym: "first_match (Star (Sym q)) (s, g) (dropWhile q s, g)"
proof (induction s)
  case Nil
  then show ?case by (simp add: first_match_def)
next
  case (Cons x xs)
  show ?case
  proof (cases "q x")
    case True
    from Cons obtain others where "ms (Star (Sym q)) (xs, g) = (dropWhile q xs, g) # others"
      by (auto simp: first_match_def)
    then show ?thesis using True by (simp add: first_match_def)
  next
    case False
    then show ?thesis by (simp add: first_match_def)
  qed
qed

lemma first_match_plus_sym:
  "q c \<Longrightarrow> first_match (re_plus (Sym q)) (c # s, g) (dropWhile q s, g)"
  unfolding re_plus_def by (rule first_match_seq [OF first_match_sym first_match_star_sym])

lemma first_match_lit:
  "map upper_char l' = map upper_char l \<Longrightarrow> first_match (re_lit l) (l' @ r, g) (r, g)"
proof (induction l arbitrary: l')
  case Nil
  then show ?case by (simp add: re_lit_def re_seqs_simps first_match_eps)
next
  case (Cons c cs)
  then obtain c' cs' where l': "l' = c' # cs'" "upper_char c' = upper_char c"
    "map upper_char cs' = map upper_char cs" by (cases l') auto
  have "re_lit (c # cs) = Seq (Sym (\<lambda>x. upper_char x = upper_char c)) (re_lit cs)"
    by (simp add: re_lit_def re_seqs_simps)
  moreover have "first_match (Sym (\<lambda>x. upper_char x = upper_char c)) (c' # cs' @ r, g) (cs' @ r, g)"
    using l'(2) by (intro first_match_sym)
  moreover have "first_match (re_lit cs) (cs' @ r, g) (r, g)" using Cons.IH l'(3) by blast
  ultimately show ?case using l'(1) first_match_seq by simp
qed

lemma dropWhile_all: "list_all q w \<Longrightarrow> dropWhile q (w @ r) = dropWhile q r"
  by (induction w) simp_all




lemma dropWhile_stop: "\<not> q c \<Longrightarrow> list_all q w \<Longrightarrow> dropWhile q (w @ c # r) = c # r"
  by (simp add: dropWhile_all)


subsection \<open>Procedure parameters\<close>









subsection \<open>A size with too many digits\<close>

lemma first_match_star_none: "ms a st = [] \<Longrightarrow> first_match (Star a) st st"
  by (cases "length (fst st)") (simp_all add: first_match_def)

lemma item_pattern_size_group:
  assumes "is_digits d"
  shows "\<exists>g. re_match item_pattern (''ITEM X S '' @ d) = Some g \<and> g 4 = Some d"
proof -
  from assms obtain c d' where d: "d = c # d'" "isdigit_char c" "list_all isdigit_char d'"
    by (cases d) (auto simp: is_digits_def)
  let ?S5 = "CHR '' '' # d"
  let ?S4 = "CHR ''S'' # ?S5"
  let ?S3 = "CHR '' '' # ?S4"
  let ?S2 = "CHR ''X'' # ?S3"
  let ?S1 = "CHR '' '' # ?S2"
  let ?g0 = "Map.empty :: groups"
  let ?g1 = "?g0(1 \<mapsto> ''X'')"
  let ?g3 = "?g1(3 \<mapsto> ''S'')"
  let ?g4 = "?g3(4 \<mapsto> d)"
  let ?g5 = "?g4(5 \<mapsto> [])"
  have sp: "isspace CHR '' ''" "\<not> isspace CHR ''X''" "\<not> isspace CHR ''S''"
    "isalpha_char CHR ''X''" "\<not> isname_char CHR '' ''"
    by (simp_all add: isspace_def isalpha_char_def isname_char_def isupper_char_def
        islower_char_def isdigit_char_def Let_def)
  have a: "first_match (re_lit ''ITEM'') (''ITEM'' @ ?S1, ?g0) (?S1, ?g0)"
    by (rule first_match_lit) simp
  from first_match_plus_sym [of isspace "CHR '' ''" ?S2 ?g0] sp
  have b: "first_match (re_plus re_space) (?S1, ?g0) (?S2, ?g0)" by (simp add: re_space_def)
  from first_match_star_sym [of isname_char ?S3 ?g0] sp
  have "first_match (Star (Sym isname_char)) (?S3, ?g0) (?S3, ?g0)" by simp
  with first_match_sym [of isalpha_char "CHR ''X''" ?S3 ?g0] sp
  have "first_match re_name (?S2, ?g0) (?S3, ?g0)"
    unfolding re_name_def by (auto intro: first_match_seq)
  from first_match_group [OF this, of 1]
  have c: "first_match (Group 1 re_name) (?S2, ?g0) (?S3, ?g1)" by simp
  from first_match_plus_sym [of isspace "CHR '' ''" ?S4 ?g1] sp
  have e: "first_match (re_plus re_space) (?S3, ?g1) (?S4, ?g1)" by (simp add: re_space_def)
  let ?attrs = "Group 2 (re_alts [Seq (re_lit ''STATIC'') (re_plus re_space),
                                      Seq (re_lit ''CONSTANT'') (re_plus re_space),
                                      Seq (re_lit ''PARALLEL'') (re_plus re_space)])"
  have "ms ?attrs (?S4, ?g1) = []"
    by (simp add: re_alts_def re_lit_def re_seqs_def re_plus_def upper_char_def islower_char_def
        Let_def)
  then have f: "first_match (Star ?attrs) (?S4, ?g1) (?S4, ?g1)" by (rule first_match_star_none)
  let ?types = "re_alts [re_lit ''S'', re_lit ''U'', re_lit ''F'', re_lit ''A'',
                                re_lit ''B'', re_lit ''C'', re_lit ''P'', re_lit ''STATUS'']"
  have "first_match (re_lit ''S'') (''S'' @ ?S5, ?g1) (?S5, ?g1)"
    by (rule first_match_lit) simp
  then have "first_match ?types (?S4, ?g1) (?S5, ?g1)"
    by (simp add: re_alts_def first_match_alt1)
  from first_match_group [OF this, of 3]
  have h: "first_match (Group 3 ?types) (?S4, ?g1) (?S5, ?g3)" by simp
  have "dropWhile isspace ?S5 = d"
    using d(2) sp by (simp add: d(1) not_isspace_digit)
  with first_match_star_sym [of isspace ?S5 ?g3]
  have i: "first_match (Star re_space) (?S5, ?g3) (d, ?g3)" by (simp add: re_space_def)
  have "dropWhile isdigit_char d' = []" using d(3) by (simp add: list_all_iff)
  with first_match_plus_sym [of isdigit_char c d' ?g3] d(2)
  have "first_match (re_plus re_digit) (d, ?g3) ([], ?g3)" by (simp add: re_digit_def d(1))
  from first_match_group [OF this, of 4]
  have "first_match (Group 4 (re_plus re_digit)) (d, ?g3) ([], ?g4)" by simp
  then have j: "first_match (re_opt (Group 4 (re_plus re_digit))) (d, ?g3) ([], ?g4)"
    by (rule first_match_opt)
  have "first_match (Star re_dot) ([], ?g4) ([], ?g4)"
    using first_match_star_sym [of "\<lambda>x. x \<noteq> CHR 0x0A" "[]" ?g4] by (simp add: re_dot_def)
  from first_match_group [OF this, of 5]
  have k: "first_match (Group 5 (Star re_dot)) ([], ?g4) ([], ?g5)" by simp
  have "first_match item_pattern (''ITEM'' @ ?S1, ?g0) ([], ?g5)"
    unfolding item_pattern_def re_seqs_simps
    by (intro first_match_seq [OF a] first_match_seq [OF b] first_match_seq [OF c]
        first_match_seq [OF e] first_match_seq [OF f] first_match_seq [OF h]
        first_match_seq [OF i] first_match_seq [OF j] first_match_seq [OF k] first_match_eps)
  from first_match_re_match [OF this]
  have "re_match item_pattern (''ITEM'' @ ?S1) = Some ?g5" by simp
  moreover have "?g5 4 = Some d" by simp
  ultimately show ?thesis by (metis append_Cons append_Nil)
qed

lemma remove_comments_from_digits:
  "list_all isdigit_char d \<Longrightarrow> remove_comments_from (d @ r) b = d @ remove_comments_from r b"
  by (induction d) (auto simp: isdigit_char_def)

lemma size_line:
  assumes "is_digits d"
  shows "strip (remove_comments (d @ '';'')) = d @ '';''"
    and "is_complete (d @ '';'')"
    and "CHR 0x0A \<notin> set (d @ '';'')"
proof -
  from assms have ne: "d \<noteq> []" and all: "list_all isdigit_char d" by (simp_all add: is_digits_def)
  have rc: "remove_comments (d @ '';'') = d @ '';''"
    by (simp add: remove_comments_def remove_comments_from_digits [OF all])
  have "\<not> isspace (hd (d @ '';''))"
    using ne all by (cases d) (simp_all add: not_isspace_digit)
  moreover have "\<not> isspace (last (d @ '';''))" by (simp add: isspace_def)
  ultimately show "strip (remove_comments (d @ '';'')) = d @ '';''"
    unfolding rc by (intro strip_id) simp_all
  show "is_complete (d @ '';'')" by (simp add: is_complete_def endswith_def)
  show "CHR 0x0A \<notin> set (d @ '';'')" using all by (auto simp: list_all_iff isdigit_char_def)
qed

lemma size_statement:
  assumes "is_digits d"
  shows "strip (accumulate [] [''ITEM X'', ''S'', d @ '';'']) = ''ITEM X S '' @ d @ '';''"
    and "strip (rstrip_chars '';'' (''ITEM X S '' @ d @ '';'')) = ''ITEM X S '' @ d"
proof -
  from assms have ne: "d \<noteq> []" and all: "list_all isdigit_char d" by (simp_all add: is_digits_def)
  have la: "isdigit_char (last d)" using ne all by (simp add: list_all_iff)
  have a: "strip (remove_comments ''ITEM X'') = ''ITEM X''" by code_simp
  have b: "strip (remove_comments ''S'') = ''S''" by code_simp
  have ne': "d @ '';'' \<noteq> []" by simp
  have acc: "accumulate [] [''ITEM X'', ''S'', d @ '';''] = '' ITEM X S '' @ d @ '';''"
    using ne by (simp add: accumulate_def a b size_line(1) [OF assms])
  have ls: "lstrip ('' ITEM X S '' @ d @ '';'') = ''ITEM X S '' @ d @ '';''"
    by (simp add: lstrip_def isspace_def)
  have rs: "rstrip (''ITEM X S '' @ d @ '';'') = ''ITEM X S '' @ d @ '';''"
    by (simp add: rstrip_def isspace_def)
  show "strip (accumulate [] [''ITEM X'', ''S'', d @ '';'']) = ''ITEM X S '' @ d @ '';''"
    unfolding acc strip_def ls rs ..
  have "rev (''ITEM X S '' @ d @ '';'') = CHR '';'' # rev d @ rev ''ITEM X S ''" by simp
  moreover have "dropWhile (\<lambda>c. c \<in> set '';'') (rev d @ rev ''ITEM X S '') = rev d @ rev ''ITEM X S ''"
    using ne la by (intro dropWhile_id) (auto simp: hd_rev isdigit_char_def)
  ultimately have rc: "rstrip_chars '';'' (''ITEM X S '' @ d @ '';'') = ''ITEM X S '' @ d"
    by (simp add: rstrip_chars_def)
  have "\<not> isspace (last (''ITEM X S '' @ d))" using ne la by (simp add: not_isspace_digit)
  moreover have "\<not> isspace (hd (''ITEM X S '' @ d))" by (simp add: isspace_def)
  ultimately show "strip (rstrip_chars '';'' (''ITEM X S '' @ d @ '';'')) = ''ITEM X S '' @ d"
    unfolding rc by (intro strip_id) simp_all
qed

lemma three_line_item_size_too_long:
  assumes "is_digits d" and "int_max_str_digits < length d"
  shows "parse self (''ITEM X'' @ [CHR 0x0A] @ ''S'' @ [CHR 0x0A] @ d @ '';'') = Inl ValueError"
proof -
  let ?a = "''ITEM X''" and ?b = "''S''" and ?c = "d @ '';''"
  let ?code = "?a @ [CHR 0x0A] @ ?b @ [CHR 0x0A] @ ?c"
  let ?p0 = "begin_parse self ?code"
  let ?p1 = "?p0\<lparr>current_line_num := 2\<rparr>"
  let ?stmt = "''ITEM X S '' @ d @ '';''"
  from assms(1) have ne: "d \<noteq> []" by (simp add: is_digits_def)
  have nl: "CHR 0x0A \<notin> set ?a" "CHR 0x0A \<notin> set ?b" by simp_all
  have ls: "lines ?p0 = [?a, ?b] @ ?c # []"
    using nl size_line(3) [OF assms(1)]
    by (simp add: begin_parse_def split_on_append_sep split_on_no_sep)
  have inc: "\<forall>l \<in> set [?a, ?b]. \<not> is_complete (strip (remove_comments l))"
  proof -
    have "\<not> is_complete (strip (remove_comments ?a))" "\<not> is_complete (strip (remove_comments ?b))"
      by code_simp+
    then show ?thesis by simp
  qed
  have com: "is_complete (strip (remove_comments ?c))"
    by (simp only: size_line(1,2) [OF assms(1)])
  have it: "startswith ''ITEM'' (upper ?stmt)"
    by (simp add: startswith_def upper_def upper_char_def islower_char_def)
  from item_pattern_size_group [OF assms(1)] obtain g where
    g: "re_match item_pattern (''ITEM X S '' @ d) = Some g" "g 4 = Some d" by blast
  have pid: "parse_item_declaration ?p1 ?stmt 2 = Inl ValueError"
    using ne
    by (simp add: parse_item_declaration_def size_statement(2) [OF assms(1)] g truthy_def
        py_int_too_long [OF assms] del: append.simps)
  have "parse_lines ?p0 [] 0 ([?a, ?b] @ ?c # []) =
      (case parse_statement (?p0\<lparr>current_line_num := 0 + int (length [?a, ?b])\<rparr>)
              (strip (accumulate [] ([?a, ?b] @ [?c]))) (0 + int (length [?a, ?b])) of
         Inl e \<Rightarrow> Inl e
       | Inr p2 \<Rightarrow> parse_lines p2 [] (0 + int (length [?a, ?b]) + 1) [])"
    by (rule parse_lines_statement [OF inc com])
  also have "\<dots> = (case parse_statement ?p1 (strip (accumulate [] [?a, ?b, ?c])) 2 of
         Inl e \<Rightarrow> Inl e | Inr p2 \<Rightarrow> Inr (p2, []))"
    by (simp cong: sum.case_cong)
  also have "\<dots> = (case parse_statement ?p1 ?stmt 2 of
         Inl e \<Rightarrow> Inl e | Inr p2 \<Rightarrow> Inr (p2, []))"
    by (simp only: size_statement(1) [OF assms(1)])
  also have "\<dots> = Inl ValueError"
    by (simp only: parse_statement_item [OF it] pid sum.case)
  finally have run: "parse_lines ?p0 [] 0 (lines ?p0) = Inl ValueError" by (simp only: ls)
  show ?thesis by (simp only: parse_def Let_def run sum.case)
qed

section \<open>Evaluations and properties\<close>

subsection \<open>Lookup and the casing of names\<close>

text \<open>
  C1. Lookup is case-insensitive: a query folded to upper case finds the entity stored under
  the casing of the declaration. The code stores the name as written and looks the folded
  query up unchanged, so a declaration in lower case is not found. The parse of
  \<^verbatim>\<open>item alt s 16;\<close> stores the item under \<^verbatim>\<open>alt\<close>; \<open>get_item\<close> finds it there and finds
  nothing under \<^verbatim>\<open>ALT\<close>.
\<close>

theorem lookup_folded_query_misses:
  "map_sum id ((\<lambda>m. (map fst (items m), get_item m ''alt'' = None, get_item m (upper ''alt'')))
                 \<circ> snd)
     (parse new_parser ''item alt s 16;'')
   = Inr ([''alt''], False, None)"
  by code_simp

subsection \<open>The symbols of a model\<close>

text \<open>
  C3, as the spec states it: no two distinct elements of \<open>get_all_symbols\<close> are equal after
  case folding. Two items that differ in case only are both listed.
\<close>

theorem get_all_symbols_case_counterexample:
  "map_sum id (get_all_symbols \<circ> snd)
     (parse new_parser (''ITEM x S;'' @ [CHR 0x0A] @ ''ITEM X S;'')) = Inr [''x'', ''X'']
   \<and> ''x'' \<noteq> ''X'' \<and> upper ''x'' = upper ''X''"
  by code_simp

text \<open>
  C3, amended: \<open>get_all_symbols\<close> returns exactly the keys of the items, tables, procs and
  defines of the model, each once; names are compared as written.
\<close>

theorem get_all_symbols_exact:
  "set (get_all_symbols m) =
     fst ` set (items m) \<union> fst ` set (tables m) \<union> fst ` set (procs m)
       \<union> fst ` set (model_defines m)
   \<and> distinct (get_all_symbols m)"
  by (simp add: get_all_symbols_def Un_assoc)

subsection \<open>The column span of an item\<close>

text \<open>
  C4. The column span of an item is the place of its name in the last physical line of the
  statement. The code searches the statement buffer, which is stripped and joins the lines
  of the statement: for the indented line \<^verbatim>\<open>  ITEM LAT F 32;\<close> it records the span 5 to 8,
  and the name stands at column 7 of the line.
\<close>

theorem column_span_of_indented_item:
  "map_sum id ((\<lambda>m. map (\<lambda>kv. (fst kv, item_line_number (snd kv), column_start (snd kv),
                                 column_end (snd kv))) (items m)) \<circ> snd)
     (parse new_parser ''  ITEM LAT F 32;'')
   = Inr [(''LAT'', 0, 5, 8)]
   \<and> find_str ''LAT'' ''  ITEM LAT F 32;'' = 7"
  by code_simp

subsection \<open>Table dimensions\<close>

text \<open>
  C7. A bound that is not an integer becomes 0. The guard of the code strips every leading
  minus sign before it tests for digits, so the bound \<^verbatim>\<open>--5\<close> passes the guard and \<^verbatim>\<open>int\<close>
  raises: the parse of \<^verbatim>\<open>TABLE T (--5:10);\<close> ends in a \<^verbatim>\<open>ValueError\<close>. A single bound is
  tested without the sign, so \<^verbatim>\<open>-5\<close> becomes \<open>(1, 0)\<close>.
\<close>

theorem table_bound_raises:
  "parse new_parser ''TABLE T (--5:10);'' = Inl ValueError
   \<and> parse_dim ''-5:7'' = Inr (- 5, 7) \<and> parse_dim ''-5'' = Inr (1, 0)"
  by code_simp

subsection \<open>STATUS items\<close>

text \<open>
  C8. The status values of a STATUS item are the names of its \<^verbatim>\<open>V(...)\<close> tokens. In the item
  pattern the alternative \<^verbatim>\<open>S\<close> stands before \<^verbatim>\<open>STATUS\<close> and matches its first letter, so the
  item of \<^verbatim>\<open>ITEM MODE STATUS (V(NORMAL), V(WARN));\<close> is a signed item with no status values.
\<close>

theorem status_item_is_signed:
  "map_sum id ((\<lambda>m. map (\<lambda>kv. (fst kv, item_type (snd kv), status_values (snd kv))) (items m))
                 \<circ> snd)
     (parse new_parser ''ITEM MODE STATUS (V(NORMAL), V(WARN));'')
   = Inr [(''MODE'', SIGNED, [])]
   \<and> re_findall1 STATUS_VALUE_PATTERN ''ITEM MODE STATUS (V(NORMAL), V(WARN));''
       = [''NORMAL'', ''WARN'']"
  by code_simp

subsection \<open>Parsing keeps no state\<close>

text \<open>
  C9. The result of \<open>parse\<close> depends on the text only: whatever state the parser object is in,
  after any earlier parse, the call returns the same parser state and the same model.
\<close>

theorem parse_stateless: "parse p t = parse q t"
  by (cases p, cases q) (simp add: parse_def begin_parse_def)

subsection \<open>The keys of the items\<close>

text \<open>
  C10. No key of the items of a parsed model contains a dot: the scope of the model is
  \<^verbatim>\<open>"GLOBAL"\<close> from \<^verbatim>\<open>__init__\<close> to the end of the parse, so \<open>add_item\<close> stores every item
  under its name only, and a name matches \<^verbatim>\<open>[A-Z][A-Z0-9']*\<close>.
\<close>

theorem item_keys_have_no_dot:
  assumes "parse self code = Inr (p, m)"
  shows "current_scope m = ''GLOBAL'' \<and> (\<forall>k \<in> fst ` set (items m). CHR ''.'' \<notin> set k)"
  using parse_scope_global [OF assms] is_name_no_dot
  by (auto simp: scope_global_def list_all_iff)

theorem item_keys_have_no_dot_witness:
  "\<exists>p m. parse new_parser ''ITEM X S 16;'' = Inr (p, m) \<and> map fst (items m) = [''X'']
     \<and> current_scope m = ''GLOBAL'' \<and> CHR ''.'' \<notin> set ''X''"
proof -
  have k: "map_sum id ((\<lambda>m. map fst (items m)) \<circ> snd) (parse new_parser ''ITEM X S 16;'')
             = Inr [''X'']"
    by code_simp
  then obtain p m where e: "parse new_parser ''ITEM X S 16;'' = Inr (p, m)"
    by (cases "parse new_parser ''ITEM X S 16;''") auto
  with k have keys: "map fst (items m) = [''X'']" by simp
  then have "''X'' \<in> fst ` set (items m)" by (metis list.set_intros(1) set_map)
  with item_keys_have_no_dot [OF e] have c: "current_scope m = ''GLOBAL''" "CHR ''.'' \<notin> set ''X''"
    by blast+
  show ?thesis
  proof (intro exI conjI)
    show "parse new_parser ''ITEM X S 16;'' = Inr (p, m)" by (fact e)
    show "map fst (items m) = [''X'']" by (fact keys)
    show "current_scope m = ''GLOBAL''" by (fact c(1))
    show "CHR ''.'' \<notin> set ''X''" by (fact c(2))
  qed
qed

subsection \<open>Items declared in a table body\<close>




subsection \<open>The statement buffer\<close>

text \<open>
  C5. The parser adds each line (comments removed, stripped) to the statement buffer and
  dispatches the buffer when the line ends with a semicolon or is one of \<^verbatim>\<open>BEGIN\<close>, \<^verbatim>\<open>END\<close>,
  \<^verbatim>\<open>START\<close>, \<^verbatim>\<open>TERM\<close> (\<open>parse_lines_statement\<close>); an ITEM declaration on three lines then
  gives one item whose \<open>item_line_number\<close> is 2 when its size has at most
  \<open>int_max_str_digits\<close> digits (\<open>three_line_item\<close>), as \<^verbatim>\<open>ITEM ALT / STATIC / S 16;\<close> does. It
  does not for every such declaration: the three lines \<^verbatim>\<open>ITEM X\<close>, \<^verbatim>\<open>S\<close> and 4301 digits with
  a semicolon are one statement that the item pattern recognises, \<^verbatim>\<open>int\<close> refuses the size,
  and the \<^verbatim>\<open>ValueError\<close> leaves \<^verbatim>\<open>parse\<close>: no model is returned and no item recorded.
\<close>

theorem three_line_item_size_raises:
  "parse new_parser
     (''ITEM X'' @ [CHR 0x0A] @ ''S'' @ [CHR 0x0A] @ replicate 4301 CHR ''1'' @ '';'')
   = Inl ValueError
   \<and> map_sum id ((\<lambda>m. map (\<lambda>kv. (fst kv, item_line_number (snd kv))) (items m)) \<circ> snd)
       (parse new_parser (''ITEM ALT'' @ [CHR 0x0A] @ ''  STATIC'' @ [CHR 0x0A] @ ''  S 16;''))
     = Inr [(''ALT'', 2)]"
proof
  have "is_digits (replicate 4301 CHR ''1'')"
    by (simp add: is_digits_def list_all_iff isdigit_char_def)
  moreover have "int_max_str_digits < length (replicate 4301 CHR ''1'')"
    by (simp add: int_max_str_digits_def)
  ultimately show "parse new_parser
     (''ITEM X'' @ [CHR 0x0A] @ ''S'' @ [CHR 0x0A] @ replicate 4301 CHR ''1'' @ '';'')
   = Inl ValueError"
    by (rule three_line_item_size_too_long)
  show "map_sum id ((\<lambda>m. map (\<lambda>kv. (fst kv, item_line_number (snd kv))) (items m)) \<circ> snd)
       (parse new_parser (''ITEM ALT'' @ [CHR 0x0A] @ ''  STATIC'' @ [CHR 0x0A] @ ''  S 16;''))
     = Inr [(''ALT'', 2)]"
    by code_simp
qed

subsection \<open>The parameters of a procedure\<close>




end
